theory Spec2Isabelle
  imports Complex_Main
begin

section \<open>The LightPillar component (src/js/lightpillar.js)\<close>

text \<open>
  The class \<open>LightPillar\<close> is embedded as functions on an explicit instance record.
  JavaScript numbers and GLSL floats are idealised as real numbers (no rounding, no NaN);
  the DOM, the window and the three.js objects are reduced to the fields and calls the
  class touches.  Calls to the host that only have an effect outside the class (draws,
  releases, listener removal, \<open>Vector2.set\<close>) are appended to the trace \<open>calls\<close>.
\<close>

subsection \<open>Options and their defaults\<close>

text \<open>
  The options bag of the caller: a missing property is \<open>None\<close> (JavaScript
  \<open>undefined\<close>).  Properties are typed as the class uses them.
\<close>

record lp_options =
  topColor :: "string option"
  bottomColor :: "string option"
  intensity :: "real option"
  rotationSpeed :: "real option"
  interactive :: "bool option"
  glowAmount :: "real option"
  pillarWidth :: "real option"
  pillarHeight :: "real option"
  noiseIntensity :: "real option"
  pillarRotation :: "real option"
  mixBlendMode :: "string option"

text \<open>
  \<open>options.x || d\<close>: the left operand when it is truthy, the default otherwise.
  \<open>undefined\<close>, the number \<open>0\<close>, the empty string and \<open>false\<close> are falsy.
\<close>

fun or_num :: "real option \<Rightarrow> real \<Rightarrow> real" where
  "or_num None d = d"
| "or_num (Some x) d = (if x = 0 then d else x)"

fun or_str :: "string option \<Rightarrow> string \<Rightarrow> string" where
  "or_str None d = d"
| "or_str (Some x) d = (if x = [] then d else x)"

fun or_bool :: "bool option \<Rightarrow> bool \<Rightarrow> bool" where
  "or_bool None d = d"
| "or_bool (Some x) d = (if x then x else d)"

text \<open>The snapshot \<open>this.options\<close> (lines 20-32): every property is present.\<close>

record snapshot =
  s_topColor :: string
  s_bottomColor :: string
  s_intensity :: real
  s_rotationSpeed :: real
  s_interactive :: bool
  s_glowAmount :: real
  s_pillarWidth :: real
  s_pillarHeight :: real
  s_noiseIntensity :: real
  s_pillarRotation :: real
  s_mixBlendMode :: string

definition withDefaults :: "lp_options \<Rightarrow> snapshot" where
  "withDefaults opts =
    \<lparr> s_topColor = or_str (topColor opts) ''#5227FF'',
      s_bottomColor = or_str (bottomColor opts) ''#FF9FFC'',
      s_intensity = or_num (intensity opts) 1.0,
      s_rotationSpeed = or_num (rotationSpeed opts) 0.3,
      s_interactive = or_bool (interactive opts) False,
      s_glowAmount = or_num (glowAmount opts) 0.005,
      s_pillarWidth = or_num (pillarWidth opts) 3.0,
      s_pillarHeight = or_num (pillarHeight opts) 0.4,
      s_noiseIntensity = or_num (noiseIntensity opts) 0.5,
      s_pillarRotation = or_num (pillarRotation opts) 0,
      s_mixBlendMode = or_str (mixBlendMode opts) ''normal'' \<rparr>"


subsection \<open>Vectors and the shader's uniforms\<close>

type_synonym vec2 = "real \<times> real"
type_synonym vec3 = "real \<times> real \<times> real"
type_synonym vec4 = "real \<times> real \<times> real \<times> real"

record uniforms =
  uTime :: real
  uResolution :: vec2
  uMouse :: vec2
  uTopColor :: vec3
  uBottomColor :: vec3
  uIntensity :: real
  uInteractive :: bool
  uGlowAmount :: real
  uPillarWidth :: real
  uPillarHeight :: real
  uNoiseIntensity :: real
  uPillarRotation :: real

subsection \<open>The host and the instance\<close>

text \<open>The container element: the properties the class reads and writes.\<close>

record element =
  clientWidth :: int
  clientHeight :: int
  rectLeft :: real
  rectTop :: real
  rectWidth :: real
  rectHeight :: real
  background :: string
  canvasChild :: bool

text \<open>
  What the page and the browser provide at construction: the document (element ids to
  elements), whether \<open>canvas.getContext\<close> yields a context, whether the body of the
  \<open>try\<close> in \<open>setupRenderer\<close> completes, \<open>window.devicePixelRatio\<close>, and the colour
  parser \<open>THREE.Color\<close>.
\<close>

record host =
  document :: "string \<rightharpoonup> element"
  webgl :: bool
  rendererCreates :: bool
  devicePixelRatio :: real
  parseColor :: "string \<Rightarrow> vec3"

text \<open>
  The renderer as this class sees it: the logical size last passed to \<open>setSize\<close>, the
  ratio last passed to \<open>setPixelRatio\<close>, and the canvas's blend mode.  The drawing
  buffer that the library derives from size and ratio is not part of the model.
\<close>

record renderer =
  width :: int
  height :: int
  pixelRatio :: real
  styleMixBlendMode :: string

datatype call =
    Render int int
  | Vector2Set real real
  | CancelAnimationFrame nat
  | RemoveMouseMoveListener
  | RemoveResizeListener
  | RendererDispose
  | ForceContextLoss
  | RemoveCanvas
  | MaterialDispose
  | GeometryDispose

text \<open>
  The instance after the container was found.  An absent property (\<open>undefined\<close> or
  \<open>null\<close>) is \<open>None\<close>.  A handler closure is represented by its captured timeout
  variable: \<open>Some None\<close> is a handler with no pending timeout, \<open>Some (Some d)\<close> a handler
  whose pending timeout is due at time \<open>d\<close> (milliseconds).  \<open>uMouse\<close> of the material is
  the very object \<open>this.mouse\<close> (line 223), so the two are written together.
  \<open>mousemoveListener\<close>, \<open>resizeListener\<close>, \<open>pendingFrame\<close> and \<open>nextFrameId\<close> are the
  host's registrations for this instance.
\<close>

record pillar =
  container :: element
  options :: snapshot
  mouse :: vec2
  time :: real
  rafId :: "nat option"
  scene :: "nat option"
  camera :: "unit option"
  renderer :: "renderer option"
  material :: "uniforms option"
  geometry :: "unit option"
  handleMouseMove :: "real option option"
  handleResize :: "real option option"
  mousemoveListener :: bool
  resizeListener :: bool
  pendingFrame :: "nat option"
  nextFrameId :: nat
  calls :: "call list"

text \<open>
  The object \<open>new LightPillar(..)\<close> evaluates to: when the container is not found the
  constructor returns at line 8, with \<open>this.container\<close> null and nothing else set.
\<close>

datatype light_pillar = NoContainer | Built pillar

datatype js_error = TypeError

subsection \<open>Methods\<close>

definition showFallback :: "pillar \<Rightarrow> pillar" where
  "showFallback s = s\<lparr>container := (container s)\<lparr>background := ''transparent''\<rparr>\<rparr>"

definition setupScene :: "pillar \<Rightarrow> pillar" where
  "setupScene s = s\<lparr>scene := Some 0, camera := Some ()\<rparr>"

definition setSize :: "int \<Rightarrow> int \<Rightarrow> renderer \<Rightarrow> renderer" where
  "setSize w h r = r\<lparr>width := w, height := h\<rparr>"

definition setPixelRatio :: "real \<Rightarrow> renderer \<Rightarrow> renderer" where
  "setPixelRatio p r = r\<lparr>pixelRatio := p\<rparr>"

text \<open>A fresh \<open>THREE.WebGLRenderer\<close>: its own defaults, overwritten by \<open>setupRenderer\<close>.\<close>

definition newWebGLRenderer :: renderer where
  "newWebGLRenderer = \<lparr>width = 300, height = 150, pixelRatio = 1, styleMixBlendMode = []\<rparr>"

definition setupRenderer :: "host \<Rightarrow> pillar \<Rightarrow> pillar" where
  "setupRenderer h s =
    (if rendererCreates h then
       s\<lparr>renderer := Some ((setPixelRatio (min (devicePixelRatio h) 2)
                  (setSize (clientWidth (container s)) (clientHeight (container s))
                     newWebGLRenderer))
                \<lparr>styleMixBlendMode := s_mixBlendMode (options s)\<rparr>),
         container := (container s)\<lparr>canvasChild := True\<rparr>\<rparr>
     else showFallback s)"

definition setupMaterial :: "host \<Rightarrow> pillar \<Rightarrow> pillar" where
  "setupMaterial h s =
    s\<lparr>material := Some
      \<lparr> uTime = 0,
        uResolution = (of_int (clientWidth (container s)), of_int (clientHeight (container s))),
        uMouse = mouse s,
        uTopColor = parseColor h (s_topColor (options s)),
        uBottomColor = parseColor h (s_bottomColor (options s)),
        uIntensity = s_intensity (options s),
        uInteractive = s_interactive (options s),
        uGlowAmount = s_glowAmount (options s),
        uPillarWidth = s_pillarWidth (options s),
        uPillarHeight = s_pillarHeight (options s),
        uNoiseIntensity = s_noiseIntensity (options s),
        uPillarRotation = s_pillarRotation (options s) \<rparr>\<rparr>"

definition setupMesh :: "pillar \<Rightarrow> pillar" where
  "setupMesh s = s\<lparr>geometry := Some (), scene := map_option Suc (scene s)\<rparr>"

definition setupEventListeners :: "pillar \<Rightarrow> pillar" where
  "setupEventListeners s =
    (let s1 = (if s_interactive (options s)
               then s\<lparr>handleMouseMove := Some None, mousemoveListener := True\<rparr>
               else s)
     in s1\<lparr>handleResize := Some None, resizeListener := True\<rparr>)"

text \<open>
  \<open>animate\<close> (lines 285-293).  \<open>requestAnimationFrame\<close> hands out the next positive id
  and leaves one callback pending.
\<close>

definition animate :: "pillar \<Rightarrow> pillar" where
  "animate s =
    (case (material s, renderer s) of
       (Some m, Some r) \<Rightarrow>
         (if scene s = None \<or> camera s = None then s
          else
            s\<lparr>time := time s + 0.016 * s_rotationSpeed (options s),
              material := Some (m\<lparr>uTime := time s + 0.016 * s_rotationSpeed (options s)\<rparr>),
              calls := calls s @ [Render (width r) (height r)],
              rafId := Some (Suc (nextFrameId s)),
              pendingFrame := Some (Suc (nextFrameId s)),
              nextFrameId := Suc (nextFrameId s)\<rparr>)
     | _ \<Rightarrow> s)"

definition init :: "host \<Rightarrow> pillar \<Rightarrow> pillar" where
  "init h s =
    (if \<not> webgl h then showFallback s
     else animate (setupEventListeners (setupMesh (setupMaterial h
            (setupRenderer h (setupScene s))))))"

text \<open>The instance as the constructor leaves it at line 36, before \<open>this.init()\<close>.\<close>

definition fresh :: "element \<Rightarrow> lp_options \<Rightarrow> pillar" where
  "fresh el opts =
    \<lparr> container = el, options = withDefaults opts, mouse = (0, 0), time = 0,
      rafId = None, scene = None, camera = None, renderer = None, material = None,
      geometry = None, handleMouseMove = None, handleResize = None,
      mousemoveListener = False, resizeListener = False,
      pendingFrame = None, nextFrameId = 0, calls = [] \<rparr>"

definition LightPillar :: "host \<Rightarrow> string \<Rightarrow> lp_options \<Rightarrow> light_pillar" where
  "LightPillar h containerId opts =
    (case document h containerId of
       None \<Rightarrow> NoContainer
     | Some el \<Rightarrow> Built (init h (fresh el opts)))"


subsection \<open>Event handlers\<close>

text \<open>
  \<open>handleMouseMove\<close> (lines 250-261), called at time \<open>now\<close> (milliseconds).  While the
  timeout variable is set the event is dropped; otherwise a 16 ms timeout is started and
  the pointer is written.  A zero \<open>rect.width\<close> or \<open>rect.height\<close> divides by zero in
  the source (giving an infinity or NaN), which the real-number model does not represent.
\<close>

definition handleMouseMoveCall :: "real \<Rightarrow> real \<Rightarrow> real \<Rightarrow> pillar \<Rightarrow> pillar" where
  "handleMouseMoveCall now clientX clientY s =
    (case handleMouseMove s of
       None \<Rightarrow> s
     | Some (Some due) \<Rightarrow> s
     | Some None \<Rightarrow>
         (let x = ((clientX - rectLeft (container s)) / rectWidth (container s)) * 2 - 1;
              y = - ((clientY - rectTop (container s)) / rectHeight (container s)) * 2 + 1
          in s\<lparr>handleMouseMove := Some (Some (now + 16)),
               mouse := (x, y),
               material := map_option (\<lambda>m. m\<lparr>uMouse := (x, y)\<rparr>) (material s),
               calls := calls s @ [Vector2Set x y]\<rparr>))"

text \<open>
  The callback of the 16 ms timeout (lines 253-255).  The host runs it no earlier than
  its due time; a run before that, or with nothing pending, does not happen.
\<close>

definition mouseMoveTimeoutFires :: "real \<Rightarrow> pillar \<Rightarrow> pillar" where
  "mouseMoveTimeoutFires now s =
    (case handleMouseMove s of
       Some (Some due) \<Rightarrow> (if due \<le> now then s\<lparr>handleMouseMove := Some None\<rparr> else s)
     | _ \<Rightarrow> s)"

text \<open>
  \<open>handleResize\<close> (lines 268-280): a pending timeout is cleared and a new one of 150 ms
  is started.  After its callback has run the source keeps the stale timer id, and
  clearing a stale id does nothing: the model writes \<open>Some None\<close> for it.
\<close>

definition handleResizeCall :: "real \<Rightarrow> pillar \<Rightarrow> pillar" where
  "handleResizeCall now s =
    (case handleResize s of
       None \<Rightarrow> s
     | Some _ \<Rightarrow> s\<lparr>handleResize := Some (Some (now + 150))\<rparr>)"

text \<open>The body of the debounced callback (lines 274-278).\<close>

definition resizeCallback :: "pillar \<Rightarrow> pillar" where
  "resizeCallback s =
    (case (renderer s, material s) of
       (Some r, Some m) \<Rightarrow>
         (let newWidth = clientWidth (container s);
              newHeight = clientHeight (container s)
          in s\<lparr>renderer := Some (setSize newWidth newHeight r),
               material := Some (m\<lparr>uResolution := (of_int newWidth, of_int newHeight)\<rparr>)\<rparr>)
     | _ \<Rightarrow> s)"

definition resizeTimeoutFires :: "real \<Rightarrow> pillar \<Rightarrow> pillar" where
  "resizeTimeoutFires now s =
    (case handleResize s of
       Some (Some due) \<Rightarrow>
         (if due \<le> now then resizeCallback (s\<lparr>handleResize := Some None\<rparr>) else s)
     | _ \<Rightarrow> s)"

text \<open>
  What the host delivers to an instance, each with its time: a pointer move over the
  container, the two timeouts, a viewport change that leaves the container with a new
  client size, and an animation frame.
\<close>

datatype host_event =
    PointerMove real real
  | ThrottleTimeout
  | ViewportResize int int
  | DebounceTimeout
  | AnimationFrame

fun deliver :: "real \<times> host_event \<Rightarrow> pillar \<Rightarrow> pillar" where
  "deliver (now, PointerMove clientX clientY) s =
     (if mousemoveListener s then handleMouseMoveCall now clientX clientY s else s)"
| "deliver (now, ThrottleTimeout) s = mouseMoveTimeoutFires now s"
| "deliver (now, ViewportResize w h) s =
     (let s1 = s\<lparr>container := (container s)\<lparr>clientWidth := w, clientHeight := h\<rparr>\<rparr>
      in if resizeListener s1 then handleResizeCall now s1 else s1)"
| "deliver (now, DebounceTimeout) s = resizeTimeoutFires now s"
| "deliver (now, AnimationFrame) s =
     (case pendingFrame s of None \<Rightarrow> s | Some _ \<Rightarrow> animate (s\<lparr>pendingFrame := None\<rparr>))"

fun run :: "(real \<times> host_event) list \<Rightarrow> pillar \<Rightarrow> pillar" where
  "run [] s = s"
| "run (e # es) s = run es (deliver e s)"

subsection \<open>Teardown\<close>

text \<open>\<open>destroy\<close> (lines 301-329), one definition for each guarded step.\<close>

definition cancelFrame :: "pillar \<Rightarrow> pillar" where
  "cancelFrame s =
    (case rafId s of
       Some i \<Rightarrow> s\<lparr>calls := calls s @ [CancelAnimationFrame i],
                   pendingFrame := (if pendingFrame s = Some i then None else pendingFrame s)\<rparr>
     | None \<Rightarrow> s)"

definition detachMouseMove :: "pillar \<Rightarrow> pillar" where
  "detachMouseMove s =
    (if s_interactive (options s) \<and> handleMouseMove s \<noteq> None
     then s\<lparr>calls := calls s @ [RemoveMouseMoveListener], mousemoveListener := False\<rparr>
     else s)"

definition detachResize :: "pillar \<Rightarrow> pillar" where
  "detachResize s =
    (if handleResize s \<noteq> None
     then s\<lparr>calls := calls s @ [RemoveResizeListener], resizeListener := False\<rparr>
     else s)"

definition releaseRenderer :: "pillar \<Rightarrow> pillar" where
  "releaseRenderer s =
    (case renderer s of
       Some r \<Rightarrow>
         (if canvasChild (container s)
          then s\<lparr>calls := calls s @ [RendererDispose, ForceContextLoss, RemoveCanvas],
                 container := (container s)\<lparr>canvasChild := False\<rparr>\<rparr>
          else s\<lparr>calls := calls s @ [RendererDispose, ForceContextLoss]\<rparr>)
     | None \<Rightarrow> s)"

definition releaseMaterial :: "pillar \<Rightarrow> pillar" where
  "releaseMaterial s =
    (case material s of Some m \<Rightarrow> s\<lparr>calls := calls s @ [MaterialDispose]\<rparr> | None \<Rightarrow> s)"

definition releaseGeometry :: "pillar \<Rightarrow> pillar" where
  "releaseGeometry s =
    (case geometry s of Some g \<Rightarrow> s\<lparr>calls := calls s @ [GeometryDispose]\<rparr> | None \<Rightarrow> s)"

definition destroyBuilt :: "pillar \<Rightarrow> pillar" where
  "destroyBuilt s =
    releaseGeometry (releaseMaterial (releaseRenderer
      (detachResize (detachMouseMove (cancelFrame s)))))"

text \<open>
  On the object without container \<open>this.rafId\<close> is undefined, so the first guard is
  skipped, and \<open>this.options\<close> is undefined, so \<open>this.options.interactive\<close> at line 306
  throws a TypeError.
\<close>

fun destroy :: "light_pillar \<Rightarrow> js_error + light_pillar" where
  "destroy NoContainer = Inl TypeError"
| "destroy (Built s) = Inr (Built (destroyBuilt s))"

text \<open>The specification's \<open>clamp(devicePixelRatio, 1, 2)\<close>.\<close>

definition spec_clamp :: "real \<Rightarrow> real \<Rightarrow> real \<Rightarrow> real" where
  "spec_clamp x lo hi = min (max x lo) hi"


section \<open>The fragment shader (lines 107-215)\<close>

text \<open>
  GLSL floats are real numbers here; \<open>sin\<close>, \<open>cos\<close>, \<open>sqrt\<close> and \<open>tanh\<close> are the
  mathematical functions.  A \<open>mat2\<close> is stored by columns, as \<open>mat2(a, b, c, d)\<close> is in
  GLSL, and \<open>v *= m\<close> is the row vector \<open>v\<close> times \<open>m\<close>.
\<close>

datatype mat2 = Mat2 real real real real

definition PI :: real where "PI = 3.141592653589793"
definition EPSILON :: real where "EPSILON = 0.001"
definition E :: real where "E = 2.71828182845904523536"
definition HALF :: real where "HALF = 0.5"

definition rot :: "real \<Rightarrow> mat2" where
  "rot angle = (let s = sin angle; c = cos angle in Mat2 c (- s) s c)"

fun mul_vec2_mat2 :: "vec2 \<Rightarrow> mat2 \<Rightarrow> vec2" where
  "mul_vec2_mat2 (x, y) (Mat2 a b c d) = (x * a + y * b, x * c + y * d)"

fun length_vec2 :: "vec2 \<Rightarrow> real" where
  "length_vec2 (x, y) = sqrt (x * x + y * y)"

fun length_vec3 :: "vec3 \<Rightarrow> real" where
  "length_vec3 (x, y, z) = sqrt (x * x + y * y + z * z)"

fun normalize_vec3 :: "vec3 \<Rightarrow> vec3" where
  "normalize_vec3 (x, y, z) =
     (x / length_vec3 (x, y, z), y / length_vec3 (x, y, z), z / length_vec3 (x, y, z))"

definition fract :: "real \<Rightarrow> real" where
  "fract x = x - of_int \<lfloor>x\<rfloor>"

fun noise :: "vec2 \<Rightarrow> real" where
  "noise (cx, cy) =
     (let G = E;
          rx = G * sin (G * cx);
          ry = G * sin (G * cy)
      in fract (rx * ry * (1 + cx)))"

text \<open>One pass of the loop of \<open>applyWaveDeformation\<close> (lines 145-150), with index \<open>i\<close>.\<close>

fun waveStep :: "real \<Rightarrow> nat \<Rightarrow> vec3 \<times> real \<times> real \<Rightarrow> vec3 \<times> real \<times> real" where
  "waveStep timeOffset i ((x, y, z), frequency, amplitude) =
     (let (x1, z1) = mul_vec2_mat2 (x, z) (rot 0.4);
          phase = timeOffset * real i * 2;
          ox = cos (z1 * frequency - phase);
          oy = cos (x1 * frequency - phase);
          oz = cos (y * frequency - phase)
      in ((x1 + ox * amplitude, y + oy * amplitude, z1 + oz * amplitude),
          frequency * 2, amplitude * HALF))"

function waveLoop :: "real \<Rightarrow> nat \<Rightarrow> vec3 \<times> real \<times> real \<Rightarrow> vec3" where
  "waveLoop timeOffset i st =
     (if i < 4 then waveLoop timeOffset (Suc i) (waveStep timeOffset i st) else fst st)"
  by pat_completeness auto
termination
  by (relation "measure (\<lambda>(timeOffset, i, st). 4 - i)") auto

definition applyWaveDeformation :: "vec3 \<Rightarrow> real \<Rightarrow> vec3" where
  "applyWaveDeformation pos timeOffset = waveLoop timeOffset 0 (pos, 1, 1)"

definition blendMin :: "real \<Rightarrow> real \<Rightarrow> real \<Rightarrow> real" where
  "blendMin a b k =
     (let scaledK = k * 4;
          h = max (scaledK - \<bar>a - b\<bar>) 0
      in min a b - h * h * 0.25 / scaledK)"

definition blendMax :: "real \<Rightarrow> real \<Rightarrow> real \<Rightarrow> real" where
  "blendMax a b k = - blendMin (- a) (- b) k"

definition smoothstep :: "real \<Rightarrow> real \<Rightarrow> real \<Rightarrow> real" where
  "smoothstep edge0 edge1 x =
     (let t = min (max ((x - edge0) / (edge1 - edge0)) 0) 1 in t * t * (3 - 2 * t))"

fun mix :: "vec3 \<Rightarrow> vec3 \<Rightarrow> real \<Rightarrow> vec3" where
  "mix (a1, a2, a3) (b1, b2, b3) t =
     (a1 * (1 - t) + b1 * t, a2 * (1 - t) + b2 * t, a3 * (1 - t) + b3 * t)"

definition maxDepth :: real where "maxDepth = 50.0"

text \<open>The rotation of the ray's horizontal plane (lines 178-181).\<close>

definition rotX :: "uniforms \<Rightarrow> mat2" where
  "rotX u =
     (let m = rot (uTime u * 0.3)
      in if uInteractive u \<and> length_vec2 (uMouse u) > 0
         then rot (fst (uMouse u) * PI * 2) else m)"

text \<open>The body of the march loop, at a given depth: lines 186-187.\<close>

fun samplePos :: "vec3 \<Rightarrow> vec3 \<Rightarrow> mat2 \<Rightarrow> real \<Rightarrow> vec3" where
  "samplePos (ox, oy, oz) (dx, dy, dz) m depth =
     (let (px, pz) = mul_vec2_mat2 (ox + dx * depth, oz + dz * depth) m
      in (px, oy + dy * depth, pz))"

text \<open>Lines 189-198: the field value at a sample position.\<close>

fun fieldDistance :: "uniforms \<Rightarrow> vec3 \<Rightarrow> real" where
  "fieldDistance u (px, py, pz) =
     (let (wx, wy, wz) =
            applyWaveDeformation (px, py * uPillarHeight u + uTime u, pz) (uTime u);
          cosinePair = (cos wx, cos wz);
          fd = length_vec2 cosinePair - 0.2;
          radialBound = length_vec2 (px, pz) - uPillarWidth u;
          fd1 = blendMax radialBound fd 1
      in \<bar>fd1\<bar> * 0.15 + 0.01)"

text \<open>Lines 200-201: the colour after the sample's contribution.\<close>

fun accumulate :: "uniforms \<Rightarrow> vec3 \<Rightarrow> vec3 \<Rightarrow> vec3" where
  "accumulate u (px, py, pz) (c1, c2, c3) =
     (let (g1, g2, g3) = mix (uBottomColor u) (uTopColor u) (smoothstep 15 (- 15) py);
          w = (1 / fieldDistance u (px, py, pz)) powr 1
      in (c1 + g1 * w, c2 + g2 * w, c3 + g3 * w))"

text \<open>
  The march loop (lines 185-205) from index \<open>i\<close>.  Beside the colour, the result keeps
  the depth at exit, the number of loop bodies that were run and whether the loop was
  left by \<open>break\<close>.
\<close>

record march_result =
  m_color :: vec3
  m_depth :: real
  m_iterations :: nat
  m_broke :: bool

function march ::
  "uniforms \<Rightarrow> vec3 \<Rightarrow> vec3 \<Rightarrow> mat2 \<Rightarrow> nat \<Rightarrow> real \<Rightarrow> vec3 \<Rightarrow> march_result" where
  "march u origin direction m i depth color =
     (if i < 100 then
        (if fieldDistance u (samplePos origin direction m depth) < EPSILON \<or> depth > maxDepth
         then \<lparr> m_color = accumulate u (samplePos origin direction m depth) color,
                m_depth = depth, m_iterations = Suc i, m_broke = True \<rparr>
         else march u origin direction m (Suc i)
                (depth + fieldDistance u (samplePos origin direction m depth))
                (accumulate u (samplePos origin direction m depth) color))
      else \<lparr> m_color = color, m_depth = depth, m_iterations = i, m_broke = False \<rparr>)"
  by pat_completeness auto
termination
  by (relation "measure (\<lambda>(u, origin, direction, m, i, depth, color). 100 - i)") auto

text \<open>Lines 166-173: the camera ray of a pixel.\<close>

definition rayDirection :: "uniforms \<Rightarrow> vec2 \<Rightarrow> vec3" where
  "rayDirection u vUv =
     (let fragCoord = (fst vUv * fst (uResolution u), snd vUv * snd (uResolution u));
          uv = ((fst fragCoord * 2 - fst (uResolution u)) / snd (uResolution u),
                (snd fragCoord * 2 - snd (uResolution u)) / snd (uResolution u));
          rotAngle = uPillarRotation u * PI / 180;
          uv1 = mul_vec2_mat2 uv (rot rotAngle)
      in normalize_vec3 (fst uv1, snd uv1, 1))"

text \<open>\<open>main\<close>: the colour of the pixel with varying \<open>vUv\<close> and window position \<open>fragXY\<close>.\<close>

definition main :: "uniforms \<Rightarrow> vec2 \<Rightarrow> vec2 \<Rightarrow> vec4" where
  "main u vUv fragXY =
     (let origin = (0, 0, - 10);
          direction = rayDirection u vUv;
          (c1, c2, c3) = m_color (march u origin direction (rotX u) 0 0.1 (0, 0, 0));
          widthNormalization = uPillarWidth u / 3;
          t1 = tanh (c1 * uGlowAmount u / widthNormalization);
          t2 = tanh (c2 * uGlowAmount u / widthNormalization);
          t3 = tanh (c3 * uGlowAmount u / widthNormalization);
          rnd = noise fragXY;
          d = rnd / 15 * uNoiseIntensity u
      in ((t1 - d) * uIntensity u, (t2 - d) * uIntensity u, (t3 - d) * uIntensity u, 1))"


section \<open>A checker for the march along the central ray\<close>

text \<open>
  The definitions of this section are not part of the program: they are an integer
  procedure that bounds the field value from below on intervals of the depth, for the ray
  through the centre of the screen at time 0.  Numbers are fixed-point integers with
  16 fractional bits; a pair \<open>(v, e)\<close> stands for every real within \<open>e / 65536\<close> of
  \<open>v / 65536\<close>.
\<close>

text \<open>
  \<open>fx_cos v\<close>: the cosine of \<open>v / 65536\<close>, with its error in units of \<open>1 / 65536\<close>.  The
  argument is reduced by a multiple of \<open>pi\<close> (taken with 28 fractional bits), and the
  cosine of the rest is the Taylor polynomial of degree 10, evaluated by Horner's rule with
  24 fractional bits.
\<close>

definition fx_cos :: "int \<Rightarrow> int \<times> int" where
  "fx_cos v =
    (let k = drop_bit 32 (v * 20861 + 2147483648);
         y = v - drop_bit 12 (k * 843314857 + 2048)
     in if \<bar>y\<bar> > 105000 \<or> \<bar>k\<bar> > 4096 then (0, 65536)
        else
          (let u = drop_bit 16 (y * y);
               t4 = 416 - drop_bit 16 (u * 5);
               t3 = 23302 - drop_bit 16 (u * t4);
               t2 = 699051 - drop_bit 16 (u * t3);
               t1 = 8388608 - drop_bit 16 (u * t2);
               T = 16777216 - drop_bit 16 (u * t1);
               c = drop_bit 8 T
           in (if even k then c else - c, 4)))"

text \<open>The pair \<open>p\<close> encloses the real \<open>X\<close>.\<close>

definition approx :: "int \<times> int \<Rightarrow> real \<Rightarrow> bool" where
  "approx p X = (\<bar>X * 65536 - real_of_int (fst p)\<bar> \<le> real_of_int (snd p))"

text \<open>
  The cosine, the term \<open>cos (q * 2 ^ i) / 2 ^ i\<close> of the wave deformation, the sum, and
  the rotation by 0.4 radians, on enclosures.
\<close>

definition fx_cosE :: "int \<times> int \<Rightarrow> int \<times> int" where
  "fx_cosE p =
    (if fst p = 0 \<and> snd p = 0 then (65536, 0)
     else (fst (fx_cos (fst p)), snd p + snd (fx_cos (fst p))))"

definition fx_osc :: "nat \<Rightarrow> int \<times> int \<Rightarrow> int \<times> int" where
  "fx_osc i p =
    (let c = fx_cosE (push_bit i (fst p), push_bit i (snd p))
     in (drop_bit i (fst c), drop_bit i (snd c) + 2))"

definition fx_add :: "int \<times> int \<Rightarrow> int \<times> int \<Rightarrow> int \<times> int" where
  "fx_add p q = (fst p + fst q, snd p + snd q)"

definition fx_rot :: "int \<times> int \<Rightarrow> int \<times> int \<Rightarrow> (int \<times> int) \<times> (int \<times> int)" where
  "fx_rot p q =
    (let x = fst p; ex = snd p; z = fst q; ez = snd q;
         er = drop_bit 24 (\<bar>x\<bar> + \<bar>z\<bar>) + 3
     in ((drop_bit 24 (x * 15452839 - z * 6533356), drop_bit 8 (ex * 236 + ez * 100) + er),
         (drop_bit 24 (x * 6533356 + z * 15452839), drop_bit 8 (ex * 100 + ez * 236) + er)))"

text \<open>
  One pass of the wave deformation at time 0 on enclosures of the three coordinates; the
  last pass, which needs no second coordinate; and the four passes from \<open>(0, 0, z)\<close>.
\<close>

type_synonym fx3 = "(int \<times> int) \<times> (int \<times> int) \<times> (int \<times> int)"

definition fx_stage :: "nat \<Rightarrow> fx3 \<Rightarrow> fx3" where
  "fx_stage i st =
    (case st of (px, py, pz) \<Rightarrow>
       (let r = fx_rot px pz
        in (fx_add (fst r) (fx_osc i (snd r)),
            fx_add py (fx_osc i (fst r)),
            fx_add (snd r) (fx_osc i py))))"

definition fx_last :: "nat \<Rightarrow> fx3 \<Rightarrow> (int \<times> int) \<times> (int \<times> int)" where
  "fx_last i st =
    (case st of (px, py, pz) \<Rightarrow>
       (let r = fx_rot px pz
        in (fx_add (fst r) (fx_osc i (snd r)), fx_add (snd r) (fx_osc i py))))"

definition fx_wave :: "int \<Rightarrow> int \<Rightarrow> (int \<times> int) \<times> (int \<times> int)" where
  "fx_wave zc zr =
    fx_last 3 (fx_stage 2 (fx_stage 1 (fx_stage 0 ((0, 0), (0, 0), (zc, zr)))))"

text \<open>
  \<open>cell_ok blo bhi gam tgt usecos\<close>: on the depths from \<open>blo / 1024\<close> to \<open>bhi / 1024\<close> the
  field value is at least \<open>tgt / 1024\<close>.  \<open>gam / 1024\<close> is a lower bound of the cosine
  field \<open>length(cos(warped.xz)) - 0.2\<close>, checked against the enclosure of the warped
  position when \<open>usecos\<close> holds and at most \<open>- 0.2\<close> otherwise.
\<close>

definition cell_ok :: "int \<Rightarrow> int \<Rightarrow> int \<Rightarrow> int \<Rightarrow> bool \<Rightarrow> bool" where
  "cell_ok blo bhi gam tgt usecos =
    (let zlo = blo - 10240; zhi = bhi - 10240;
         rb = (if zlo \<le> 0 \<and> 0 \<le> zhi then - 3072 else min \<bar>zlo\<bar> \<bar>zhi\<bar> - 3072);
         h = max (4096 - \<bar>rb - gam\<bar>) 0
     in (if usecos then
           (let w = fx_wave ((zlo + zhi) * 32) ((zhi - zlo) * 32);
                c1 = fx_cosE (fst w); c2 = fx_cosE (snd w);
                l1 = max (\<bar>fst c1\<bar> - snd c1) 0;
                l2 = max (\<bar>fst c2\<bar> - snd c2) 0;
                G = gam * 64 + 13108
            in 0 \<le> G \<and> G * G \<le> l1 * l1 + l2 * l2)
         else gam \<le> - 205)
        \<and> 20 * 16384 * (25 * tgt - 256) \<le> 75 * (max rb gam * 16384 + h * h))"

text \<open>
  Consecutive cells with one target; where a list of cells ends; and a cover: a list of
  intervals, each split into cells, each as long as the bound of the field value on it,
  that ends beyond the depth 50.
\<close>

fun cells_ok :: "int \<Rightarrow> int \<Rightarrow> (int \<times> int \<times> bool) list \<Rightarrow> bool" where
  "cells_ok tgt lo [] = True"
| "cells_ok tgt lo ((hi, gam, uc) # cs) =
     (lo < hi \<and> cell_ok lo hi gam tgt uc \<and> cells_ok tgt hi cs)"

fun interval_end :: "int \<Rightarrow> (int \<times> int \<times> bool) list \<Rightarrow> int" where
  "interval_end lo [] = lo"
| "interval_end lo ((hi, gam, uc) # cs) = interval_end hi cs"

fun cover_ok :: "int \<Rightarrow> (int \<times> int \<times> bool) list list \<Rightarrow> bool" where
  "cover_ok a [] = (51200 < a)"
| "cover_ok a (cs # rest) =
     (cells_ok (interval_end a cs - a) a cs \<and> cover_ok (interval_end a cs) rest)"

text \<open>A cover of the depths from \<open>102 / 1024\<close> to beyond 50 by 98 intervals.\<close>

definition cert :: "(int \<times> int \<times> bool) list list" where
  "cert =
    [
     [(1032, -205, False)],
     [(1841, -205, False)],
     [(2544, -205, False)],
     [(3156, -205, False)],
     [(3689, -205, False)],
     [(4157, -205, False)],
     [(4571, -205, False)],
     [(4940, -205, False)],
     [(5271, -205, False)],
     [(5569, -205, False)],
     [(5838, -205, False)],
     [(6083, -205, False)],
     [(6306, -205, False)],
     [(6417, 97, True), (6528, 122, True)],
     [(6632, 169, True), (6737, 163, True)],
     [(6834, 206, True), (6932, 191, True)],
     [(7023, 224, True), (7115, 206, True)],
     [(7177, 428, True), (7239, 416, True), (7301, 400, True)],
     [(7359, 416, True), (7417, 401, True), (7475, 389, True)],
     [(7530, 412, True), (7585, 415, True), (7641, 414, True)],
     [(7694, 452, True), (7747, 460, True), (7801, 452, True)],
     [(7872, 315, True), (7943, 342, True)],
     [(8013, 377, True), (8083, 392, True)],
     [(8149, 408, True), (8215, 379, True)],
     [(8275, 374, True), (8336, 325, True)],
     [(8392, 318, True), (8448, 289, True)],
     [(8485, 386, True), (8523, 366, True), (8561, 354, True)],
     [(8597, 359, True), (8633, 353, True), (8669, 348, True)],
     [(8704, 353, True), (8739, 353, True), (8774, 354, True)],
     [(8808, 366, True), (8842, 371, True), (8876, 378, True)],
     [(8910, 387, True), (8944, 398, True), (8979, 403, True)],
     [(9013, 429, True), (9048, 439, True), (9083, 461, True)],
     [(9118, 486, True), (9154, 503, True), (9190, 531, True)],
     [(9227, 551, True), (9265, 568, True), (9303, 593, True)],
     [(9341, 614, True), (9380, 622, True), (9419, 633, True)],
     [(9458, 640, True), (9497, 642, True), (9536, 642, True)],
     [(9567, 716, True), (9598, 721, True), (9629, 730, True), (9661, 737, True)],
     [(9701, 685, True), (9741, 710, True), (9781, 726, True)],
     [(9820, 738, True), (9859, 728, True), (9899, 698, True)],
     [(9936, 702, True), (9973, 676, True), (10010, 650, True)],
     [(10044, 653, True), (10078, 631, True), (10113, 600, True)],
     [(10145, 607, True), (10177, 587, True), (10209, 568, True)],
     [(10239, 567, True), (10269, 548, True), (10299, 528, True)],
     [(10327, 527, True), (10355, 507, True), (10384, 477, True)],
     [(10411, 475, True), (10438, 456, True), (10465, 438, True)],
     [(10491, 430, True), (10517, 416, True), (10543, 403, True)],
     [(10568, 401, True), (10593, 392, True), (10618, 385, True)],
     [(10643, 379, True), (10668, 374, True), (10693, 369, True)],
     [(10718, 363, True), (10743, 357, True), (10768, 351, True)],
     [(10792, 349, True), (10816, 340, True), (10841, 325, True)],
     [(10865, 321, True), (10889, 311, True), (10913, 303, True)],
     [(10937, 296, True), (10961, 292, True), (10985, 291, True)],
     [(11009, 294, True), (11034, 295, True), (11059, 305, True)],
     [(11085, 313, True), (11111, 332, True), (11137, 353, True)],
     [(11165, 367, True), (11194, 394, True), (11223, 435, True)],
     [(11256, 459, True), (11290, 512, True), (11324, 567, True)],
     [(11363, 569, True), (11402, 587, True), (11441, 588, True)],
     [(11481, 572, True), (11521, 560, True), (11561, 563, True)],
     [(11602, 586, True), (11644, 615, True), (11686, 648, True)],
     [(11731, 653, True), (11777, 665, True), (11823, 677, True)],
     [(11871, 671, True), (11919, 686, True), (11968, 694, True)],
     [(12019, 695, True), (12070, 717, True), (12121, 738, True)],
     [(12174, 730, True), (12228, 721, True), (12282, 724, True)],
     [(12337, 720, True), (12393, 717, True), (12449, 715, True)],
     [(12506, 691, True), (12563, 668, True), (12621, 636, True)],
     [(12679, 619, True), (12737, 608, True), (12795, 600, True)],
     [(12854, 585, True), (12914, 567, True), (12974, 556, True)],
     [(13035, 533, True), (13097, 507, True), (13159, 487, True)],
     [(13222, 458, True), (13285, 437, True), (13349, 410, True)],
     [(13440, 224, True), (13532, 220, True)],
     [(13629, 201, True), (13727, 210, True)],
     [(13831, 184, True), (13936, 180, True)],
     [(14047, 138, True), (14159, 122, True)],
     [(14277, 71, True), (14396, 41, True)],
     [(14640, -205, False)],
     [(14909, -205, False)],
     [(15206, -205, False)],
     [(15536, -205, False)],
     [(15905, -205, False)],
     [(16319, -205, False)],
     [(16787, -205, False)],
     [(17320, -205, False)],
     [(17931, -205, False)],
     [(18634, -205, False)],
     [(19442, -205, False)],
     [(20371, -205, False)],
     [(21440, -205, False)],
     [(22669, -205, False)],
     [(24082, -205, False)],
     [(25707, -205, False)],
     [(27576, -205, False)],
     [(29725, -205, False)],
     [(32197, -205, False)],
     [(35039, -205, False)],
     [(38308, -205, False)],
     [(42067, -205, False)],
     [(46390, -205, False)],
     [(51361, -205, False)]
    ]"

section \<open>Concrete inputs\<close>

text \<open>
  The page of the repository: one container of 800 by 600 pixels, a working WebGL
  context, and the options of the \<open>DOMContentLoaded\<close> handler (lines 345-357).
\<close>

definition demoElement :: element where
  "demoElement =
    \<lparr> clientWidth = 800, clientHeight = 600, rectLeft = 0, rectTop = 0,
      rectWidth = 800, rectHeight = 600, background = [], canvasChild = False \<rparr>"

definition demoHost :: host where
  "demoHost =
    \<lparr> document = [''lightpillar-container'' \<mapsto> demoElement],
      webgl = True, rendererCreates = True, devicePixelRatio = 1,
      parseColor = (\<lambda>c. (0, 0, 0)) \<rparr>"

definition noOptions :: lp_options where
  "noOptions =
    \<lparr> topColor = None, bottomColor = None, intensity = None, rotationSpeed = None,
      interactive = None, glowAmount = None, pillarWidth = None, pillarHeight = None,
      noiseIntensity = None, pillarRotation = None, mixBlendMode = None \<rparr>"

definition pageOptions :: lp_options where
  "pageOptions =
    \<lparr> topColor = Some ''#5227FF'', bottomColor = Some ''#FF9FFC'', intensity = Some 1.0,
      rotationSpeed = Some 0.3, interactive = Some False, glowAmount = Some 0.005,
      pillarWidth = Some 3.0, pillarHeight = Some 0.4, noiseIntensity = Some 0.5,
      pillarRotation = Some 0, mixBlendMode = Some ''normal'' \<rparr>"

definition demoPillar :: pillar where
  "demoPillar = init demoHost (fresh demoElement pageOptions)"

definition interactivePillar :: pillar where
  "interactivePillar = init demoHost (fresh demoElement (pageOptions\<lparr>interactive := Some True\<rparr>))"

fun built :: "light_pillar \<Rightarrow> pillar option" where
  "built NoContainer = None"
| "built (Built s) = Some s"

definition isVector2Set :: "call \<Rightarrow> bool" where
  "isVector2Set c = (case c of Vector2Set x y \<Rightarrow> True | _ \<Rightarrow> False)"

definition isRender :: "call \<Rightarrow> bool" where
  "isRender c = (case c of Render w h \<Rightarrow> True | _ \<Rightarrow> False)"


definition zeroWidthPillar :: pillar where
  "zeroWidthPillar = demoPillar\<lparr>container := (container demoPillar)\<lparr>clientWidth := 0\<rparr>\<rparr>"

text \<open>A hundred pointer moves, one every tenth of a millisecond from time 0.\<close>

definition burst :: "(real \<times> host_event) list" where
  "burst = map (\<lambda>k. (real k / 10, PointerMove (real k) 300)) [0..<100]"

text \<open>The uniforms of the page's instance at time 0, and the same with a pointer.\<close>

definition pageUniforms :: uniforms where
  "pageUniforms =
    \<lparr> uTime = 0, uResolution = (800, 600), uMouse = (0, 0),
      uTopColor = (0, 0, 0), uBottomColor = (0, 0, 0), uIntensity = 1.0,
      uInteractive = False, uGlowAmount = 0.005, uPillarWidth = 3.0,
      uPillarHeight = 0.4, uNoiseIntensity = 0.5, uPillarRotation = 0 \<rparr>"

definition pointerUniforms :: uniforms where
  "pointerUniforms = pageUniforms\<lparr>uMouse := (1 / 2, 0)\<rparr>"

text \<open>The instance has everything \<open>animate\<close> asks for at line 286.\<close>

definition ready :: "pillar \<Rightarrow> bool" where
  "ready s =
    (material s \<noteq> None \<and> renderer s \<noteq> None \<and> scene s \<noteq> None \<and> camera s \<noteq> None)"

text \<open>The number of accepted pointer updates: the calls of \<open>this.mouse.set\<close>.\<close>

definition accepted :: "pillar \<Rightarrow> nat" where
  "accepted s = length (filter isVector2Set (calls s))"

declare march.simps [simp del]
declare waveLoop.simps [simp del]

section \<open>Properties\<close>

lemmas setup_defs = init_def animate_def setupEventListeners_def setupMesh_def setupMaterial_def
  setupRenderer_def setupScene_def showFallback_def fresh_def setSize_def setPixelRatio_def
  newWebGLRenderer_def

lemmas demo_defs = demoPillar_def interactivePillar_def demoHost_def demoElement_def
  pageOptions_def noOptions_def withDefaults_def

lemmas destroy_defs = destroyBuilt_def cancelFrame_def detachMouseMove_def detachResize_def
  releaseRenderer_def releaseMaterial_def releaseGeometry_def

lemma built_demo: "LightPillar demoHost ''lightpillar-container'' pageOptions = Built demoPillar"
  by (simp add: LightPillar_def demoHost_def demoPillar_def)

subsection \<open>The animation clock\<close>

lemma animate_time:
  "material s = Some m \<Longrightarrow> renderer s = Some r \<Longrightarrow> scene s \<noteq> None \<Longrightarrow> camera s \<noteq> None \<Longrightarrow>
   time (animate s) = time s + 0.016 * s_rotationSpeed (options s)"
  by (auto simp add: animate_def)

lemma animate_ready: "ready s \<Longrightarrow> ready (animate s) \<and> options (animate s) = options s"
  by (auto simp add: animate_def ready_def)

lemma ticks_ready:
  "ready s \<Longrightarrow> ready ((animate ^^ n) s) \<and> options ((animate ^^ n) s) = options s"
  by (induction n) (auto simp: animate_ready)

text \<open>
  On an instance that has its renderer, material, scene and camera, \<open>n\<close> ticks advance
  the clock by \<open>n\<close> times \<open>0.016 * rotationSpeed\<close>, where \<open>rotationSpeed\<close> is the value of
  the options snapshot.
\<close>

lemma ticks_time:
  "ready s \<Longrightarrow>
   time ((animate ^^ n) s) = time s + real n * (0.016 * s_rotationSpeed (options s))"
proof (induction n)
  case 0
  then show ?case by simp
next
  case (Suc n)
  have r: "ready ((animate ^^ n) s)" and o: "options ((animate ^^ n) s) = options s"
    using ticks_ready [OF Suc.prems] by auto
  from r obtain m r' where "material ((animate ^^ n) s) = Some m"
    "renderer ((animate ^^ n) s) = Some r'"
    "scene ((animate ^^ n) s) \<noteq> None" "camera ((animate ^^ n) s) \<noteq> None"
    by (auto simp: ready_def)
  then have "time (animate ((animate ^^ n) s)) =
      time ((animate ^^ n) s) + 0.016 * s_rotationSpeed (options s)"
    using animate_time o by metis
  then show ?case using Suc.IH [OF Suc.prems] by (simp add: algebra_simps)
qed

lemma ticks_time_speed_one:
  "ready s \<Longrightarrow> s_rotationSpeed (options s) = 1 \<Longrightarrow>
   time ((animate ^^ n) s) = time s + real n * 0.016"
  using ticks_time [of s n] by simp

text \<open>
  Claim C1, at the input where the code departs from it.  The claim says that an
  instance constructed with \<open>rotationSpeed = 0\<close> never advances its elapsed time.  In
  the constructor \<open>options.rotationSpeed || 0.3\<close> replaces the falsy \<open>0\<close> by the default:
  the snapshot holds \<open>0.3\<close>, the tick run by \<open>init\<close> leaves the clock at
  \<open>0.016 * 0.3 = 0.0048\<close>, and the next animation frame at \<open>0.0096\<close>.
\<close>

theorem rotationSpeed_zero_still_advances:
  "map_option s_rotationSpeed (map_option options
      (built (LightPillar demoHost ''lightpillar-container''
                (pageOptions\<lparr>rotationSpeed := Some 0\<rparr>))))
     = Some 0.3
   \<and> map_option time
      (built (LightPillar demoHost ''lightpillar-container''
                (pageOptions\<lparr>rotationSpeed := Some 0\<rparr>)))
     = Some 0.0048
   \<and> map_option time (map_option (run [(16, AnimationFrame)])
      (built (LightPillar demoHost ''lightpillar-container''
                (pageOptions\<lparr>rotationSpeed := Some 0\<rparr>))))
     = Some 0.0096"
  by (simp add: LightPillar_def setup_defs demo_defs)

subsection \<open>Construction and the options\<close>






subsection \<open>Resizing and drawing\<close>

text \<open>
  The claim C3 as stated fails.  The container of the running page instance shrinks to
  a width of zero, the debounced callback fires, and the next animation frame draws at
  0 by 600.
\<close>

theorem draw_at_zero_width:
  "calls (run [(0, ViewportResize 0 600), (150, DebounceTimeout), (160, AnimationFrame)]
            demoPillar)
     = [Render 800 600, Render 0 600]"
  by (simp add: handleResizeCall_def resizeTimeoutFires_def resizeCallback_def setup_defs
      demo_defs)

lemma calls_resizeCallback: "calls (resizeCallback s) = calls s"
  by (simp add: resizeCallback_def Let_def split: option.splits)

text \<open>
  Claim C3, amended: a resize never invokes a draw by itself, neither when the event
  is delivered nor when the debounced callback fires.  The callback copies the
  container's current client size, whatever it is, into the renderer's size and into the
  resolution uniform.  Draws come from the animation ticks, and a tick draws at the
  renderer's current size without testing that it is positive.
\<close>

theorem resize_copies_size_and_tick_draws:
  "calls (deliver (now, ViewportResize w h) s) = calls s \<and>
   calls (deliver (now, DebounceTimeout) s) = calls s \<and>
   (renderer s \<noteq> None \<and> material s \<noteq> None \<longrightarrow>
      map_option width (renderer (resizeCallback s)) = Some (clientWidth (container s)) \<and>
      map_option height (renderer (resizeCallback s)) = Some (clientHeight (container s)) \<and>
      map_option uResolution (material (resizeCallback s))
        = Some (of_int (clientWidth (container s)), of_int (clientHeight (container s))) \<and>
      (scene s \<noteq> None \<and> camera s \<noteq> None \<longrightarrow>
        calls (animate (resizeCallback s))
          = calls s @ [Render (clientWidth (container s)) (clientHeight (container s))]))"
  by (auto simp add: handleResizeCall_def resizeTimeoutFires_def resizeCallback_def animate_def
      setSize_def Let_def split: option.splits)

theorem resize_copies_size_and_tick_draws_witness:
  "renderer zeroWidthPillar \<noteq> None \<and> material zeroWidthPillar \<noteq> None \<and>
   scene zeroWidthPillar \<noteq> None \<and> camera zeroWidthPillar \<noteq> None \<and>
   map_option width (renderer (resizeCallback zeroWidthPillar)) = Some 0 \<and>
   map_option height (renderer (resizeCallback zeroWidthPillar)) = Some 600 \<and>
   calls (animate (resizeCallback zeroWidthPillar)) = [Render 800 600, Render 0 600]"
proof -
  have pre: "renderer zeroWidthPillar \<noteq> None \<and> material zeroWidthPillar \<noteq> None"
    "scene zeroWidthPillar \<noteq> None \<and> camera zeroWidthPillar \<noteq> None"
    by (simp_all add: zeroWidthPillar_def setup_defs demo_defs)
  have size: "clientWidth (container zeroWidthPillar) = 0"
    "clientHeight (container zeroWidthPillar) = 600"
    "calls zeroWidthPillar = [Render 800 600]"
    by (simp_all add: zeroWidthPillar_def setup_defs demo_defs)
  from resize_copies_size_and_tick_draws [of 0 0 0 zeroWidthPillar] pre size
  show ?thesis by simp
qed

subsection \<open>The pixel ratio\<close>

text \<open>
  The claim C4 as stated fails: with a device pixel ratio of one half, the pixel ratio
  that \<open>setupRenderer\<close> passes to the renderer for the 800 by 600 container is one
  half, where clamping to the interval from 1 to 2 gives the ratio 1.  The ratio is not
  raised.
\<close>

theorem pixel_ratio_below_one_is_kept:
  "map_option pixelRatio (renderer (setupRenderer (demoHost\<lparr>devicePixelRatio := 1 / 2\<rparr>)
      (fresh demoElement pageOptions))) = Some (1 / 2)
   \<and> map_option width (renderer (setupRenderer (demoHost\<lparr>devicePixelRatio := 1 / 2\<rparr>)
      (fresh demoElement pageOptions))) = Some 800
   \<and> map_option height (renderer (setupRenderer (demoHost\<lparr>devicePixelRatio := 1 / 2\<rparr>)
      (fresh demoElement pageOptions))) = Some 600
   \<and> spec_clamp (1 / 2) 1 2 = 1"
  by (simp add: setup_defs demo_defs spec_clamp_def)

lemma renderer_animate: "renderer (animate s) = renderer s"
  by (simp add: animate_def split: option.splits)

text \<open>
  Claim C4, amended: the class passes to the renderer the logical size of the container
  (\<open>setSize\<close>, line 80) and, as pixel ratio, the minimum of the device pixel ratio and
  2 (\<open>setPixelRatio\<close>, line 81).  A ratio above 2 is lowered to 2; a ratio of at most 2,
  also one below 1, is passed as it is.  The size of the drawing buffer is computed from
  the two by the rendering library, outside this source.
\<close>

theorem pixel_ratio_capped_at_two:
  "document h containerId = Some el \<Longrightarrow> webgl h \<Longrightarrow> rendererCreates h \<Longrightarrow>
   (\<exists>s r. LightPillar h containerId opts = Built s \<and> renderer s = Some r
      \<and> width r = clientWidth el \<and> height r = clientHeight el
      \<and> pixelRatio r = min (devicePixelRatio h) 2
      \<and> pixelRatio r \<le> 2
      \<and> (devicePixelRatio h \<le> 2 \<longrightarrow> pixelRatio r = devicePixelRatio h)
      \<and> (2 < devicePixelRatio h \<longrightarrow> pixelRatio r = 2))"
  by (simp add: LightPillar_def init_def renderer_animate setupEventListeners_def setupMesh_def
      setupMaterial_def setupRenderer_def setupScene_def fresh_def setSize_def setPixelRatio_def
      newWebGLRenderer_def Let_def)

theorem pixel_ratio_capped_at_two_witness:
  "document (demoHost\<lparr>devicePixelRatio := 3\<rparr>) ''lightpillar-container'' = Some demoElement \<and>
   webgl (demoHost\<lparr>devicePixelRatio := 3\<rparr>) \<and> rendererCreates (demoHost\<lparr>devicePixelRatio := 3\<rparr>) \<and>
   (\<exists>s r. LightPillar (demoHost\<lparr>devicePixelRatio := 3\<rparr>) ''lightpillar-container'' pageOptions
             = Built s \<and> renderer s = Some r
      \<and> width r = 800 \<and> height r = 600 \<and> pixelRatio r = 2)"
proof -
  have pre: "document (demoHost\<lparr>devicePixelRatio := 3\<rparr>) ''lightpillar-container''
      = Some demoElement"
    "webgl (demoHost\<lparr>devicePixelRatio := 3\<rparr>)" "rendererCreates (demoHost\<lparr>devicePixelRatio := 3\<rparr>)"
    by (simp_all add: demoHost_def)
  from pixel_ratio_capped_at_two [OF pre, of pageOptions] pre show ?thesis
    by (auto simp add: demoElement_def)
qed

subsection \<open>Teardown\<close>

text \<open>
  The claim C6 as stated fails.  Two calls of \<open>destroy\<close> on the running page instance
  return without error, and the trace shows the renderer, the material and the geometry
  each released twice: the guards test fields that \<open>destroy\<close> never clears.
\<close>

theorem second_destroy_releases_again:
  "destroy (Built demoPillar) = Inr (Built (destroyBuilt demoPillar)) \<and>
   destroy (Built (destroyBuilt demoPillar))
     = Inr (Built (destroyBuilt (destroyBuilt demoPillar))) \<and>
   calls (destroyBuilt (destroyBuilt demoPillar)) =
     [Render 800 600,
      CancelAnimationFrame 1, RemoveResizeListener, RendererDispose, ForceContextLoss,
      RemoveCanvas, MaterialDispose, GeometryDispose,
      CancelAnimationFrame 1, RemoveResizeListener, RendererDispose, ForceContextLoss,
      MaterialDispose, GeometryDispose] \<and>
   count_list (calls (destroyBuilt (destroyBuilt demoPillar))) RendererDispose = 2"
  by (simp add: destroy_defs setup_defs demo_defs)

lemma cancelFrame_keeps:
  "renderer (cancelFrame s) = renderer s"
  "material (cancelFrame s) = material s"
  "geometry (cancelFrame s) = geometry s"
  "count_list (calls (cancelFrame s)) RendererDispose = count_list (calls s) RendererDispose"
  "count_list (calls (cancelFrame s)) MaterialDispose = count_list (calls s) MaterialDispose"
  "count_list (calls (cancelFrame s)) GeometryDispose = count_list (calls s) GeometryDispose"
  by (simp_all add: cancelFrame_def split: option.splits)

lemma detachMouseMove_keeps:
  "renderer (detachMouseMove s) = renderer s"
  "material (detachMouseMove s) = material s"
  "geometry (detachMouseMove s) = geometry s"
  "count_list (calls (detachMouseMove s)) RendererDispose = count_list (calls s) RendererDispose"
  "count_list (calls (detachMouseMove s)) MaterialDispose = count_list (calls s) MaterialDispose"
  "count_list (calls (detachMouseMove s)) GeometryDispose = count_list (calls s) GeometryDispose"
  by (simp_all add: detachMouseMove_def)

lemma detachResize_keeps:
  "renderer (detachResize s) = renderer s"
  "material (detachResize s) = material s"
  "geometry (detachResize s) = geometry s"
  "count_list (calls (detachResize s)) RendererDispose = count_list (calls s) RendererDispose"
  "count_list (calls (detachResize s)) MaterialDispose = count_list (calls s) MaterialDispose"
  "count_list (calls (detachResize s)) GeometryDispose = count_list (calls s) GeometryDispose"
  by (simp_all add: detachResize_def)

lemma releaseRenderer_keeps:
  "renderer (releaseRenderer s) = renderer s"
  "material (releaseRenderer s) = material s"
  "geometry (releaseRenderer s) = geometry s"
  "count_list (calls (releaseRenderer s)) RendererDispose
     = count_list (calls s) RendererDispose + (if renderer s = None then 0 else 1)"
  "count_list (calls (releaseRenderer s)) MaterialDispose = count_list (calls s) MaterialDispose"
  "count_list (calls (releaseRenderer s)) GeometryDispose = count_list (calls s) GeometryDispose"
  by (simp_all add: releaseRenderer_def split: option.splits)

lemma releaseMaterial_keeps:
  "renderer (releaseMaterial s) = renderer s"
  "material (releaseMaterial s) = material s"
  "geometry (releaseMaterial s) = geometry s"
  "count_list (calls (releaseMaterial s)) RendererDispose = count_list (calls s) RendererDispose"
  "count_list (calls (releaseMaterial s)) MaterialDispose
     = count_list (calls s) MaterialDispose + (if material s = None then 0 else 1)"
  "count_list (calls (releaseMaterial s)) GeometryDispose = count_list (calls s) GeometryDispose"
  by (simp_all add: releaseMaterial_def split: option.splits)

lemma releaseGeometry_keeps:
  "renderer (releaseGeometry s) = renderer s"
  "material (releaseGeometry s) = material s"
  "geometry (releaseGeometry s) = geometry s"
  "count_list (calls (releaseGeometry s)) RendererDispose = count_list (calls s) RendererDispose"
  "count_list (calls (releaseGeometry s)) MaterialDispose = count_list (calls s) MaterialDispose"
  "count_list (calls (releaseGeometry s)) GeometryDispose
     = count_list (calls s) GeometryDispose + (if geometry s = None then 0 else 1)"
  by (simp_all add: releaseGeometry_def split: option.splits)

lemmas destroy_steps = cancelFrame_keeps detachMouseMove_keeps detachResize_keeps
  releaseRenderer_keeps releaseMaterial_keeps releaseGeometry_keeps

lemma destroy_keeps:
  "renderer (destroyBuilt s) = renderer s"
  "material (destroyBuilt s) = material s"
  "geometry (destroyBuilt s) = geometry s"
  by (simp_all add: destroyBuilt_def destroy_steps)

lemma destroy_counts:
  "count_list (calls (destroyBuilt s)) RendererDispose
     = count_list (calls s) RendererDispose + (if renderer s = None then 0 else 1)"
  "count_list (calls (destroyBuilt s)) MaterialDispose
     = count_list (calls s) MaterialDispose + (if material s = None then 0 else 1)"
  "count_list (calls (destroyBuilt s)) GeometryDispose
     = count_list (calls s) GeometryDispose + (if geometry s = None then 0 else 1)"
  by (simp_all add: destroyBuilt_def destroy_steps)

text \<open>
  On the object whose container was not found, \<open>destroy\<close> throws: the constructor
  returned before \<open>this.options\<close> was set.
\<close>

lemma destroy_without_container:
  "LightPillar demoHost ''missing'' pageOptions = NoContainer \<and>
   destroy (LightPillar demoHost ''missing'' pageOptions) = Inl TypeError"
  by (simp add: LightPillar_def demoHost_def)

text \<open>
  Claim C6, amended: on every instance whose container was found, also one where the
  renderer, the material, the geometry or the listeners were never created, \<open>destroy\<close>
  produces no error, the first time and the second time, and each call releases every
  resource that was created exactly once: a resource that exists is released once by
  one call and twice by two calls, a resource that was never created is not released.
\<close>

theorem destroy_releases_once_per_call:
  "destroy (Built s) = Inr (Built (destroyBuilt s)) \<and>
   destroy (Built (destroyBuilt s)) = Inr (Built (destroyBuilt (destroyBuilt s))) \<and>
   count_list (calls (destroyBuilt s)) RendererDispose
     = count_list (calls s) RendererDispose + (if renderer s = None then 0 else 1) \<and>
   count_list (calls (destroyBuilt s)) MaterialDispose
     = count_list (calls s) MaterialDispose + (if material s = None then 0 else 1) \<and>
   count_list (calls (destroyBuilt s)) GeometryDispose
     = count_list (calls s) GeometryDispose + (if geometry s = None then 0 else 1) \<and>
   count_list (calls (destroyBuilt (destroyBuilt s))) RendererDispose
     = count_list (calls s) RendererDispose + (if renderer s = None then 0 else 2) \<and>
   count_list (calls (destroyBuilt (destroyBuilt s))) MaterialDispose
     = count_list (calls s) MaterialDispose + (if material s = None then 0 else 2) \<and>
   count_list (calls (destroyBuilt (destroyBuilt s))) GeometryDispose
     = count_list (calls s) GeometryDispose + (if geometry s = None then 0 else 2)"
  by (simp add: destroy_counts destroy_keeps)

subsection \<open>Degraded mode\<close>

text \<open>
  Claim C7: when \<open>canvas.getContext\<close> yields no context, \<open>init\<close> returns after
  \<open>showFallback\<close>: the constructor returns an instance (nothing is thrown) that has no
  scene, camera, renderer, material, geometry, handlers, listeners or pending animation
  frame, that has made no call to the host, and whose container has the background
  \<open>transparent\<close>.
\<close>

theorem no_webgl_leaves_transparent_container:
  "document h containerId = Some el \<Longrightarrow> \<not> webgl h \<Longrightarrow>
   (\<exists>s. LightPillar h containerId opts = Built s
      \<and> s = init h (fresh el opts)
      \<and> renderer s = None \<and> material s = None \<and> geometry s = None
      \<and> scene s = None \<and> camera s = None
      \<and> handleMouseMove s = None \<and> handleResize s = None
      \<and> \<not> mousemoveListener s \<and> \<not> resizeListener s
      \<and> rafId s = None \<and> pendingFrame s = None \<and> calls s = []
      \<and> background (container s) = ''transparent'')"
  by (simp add: LightPillar_def init_def showFallback_def fresh_def)

theorem no_webgl_leaves_transparent_container_witness:
  "document (demoHost\<lparr>webgl := False\<rparr>) ''lightpillar-container'' = Some demoElement \<and>
   \<not> webgl (demoHost\<lparr>webgl := False\<rparr>) \<and>
   (\<exists>s. LightPillar (demoHost\<lparr>webgl := False\<rparr>) ''lightpillar-container'' pageOptions = Built s
      \<and> renderer s = None \<and> material s = None \<and> geometry s = None
      \<and> rafId s = None \<and> calls s = []
      \<and> background (container s) = ''transparent'')"
proof -
  have pre: "document (demoHost\<lparr>webgl := False\<rparr>) ''lightpillar-container'' = Some demoElement"
    "\<not> webgl (demoHost\<lparr>webgl := False\<rparr>)"
    by (simp_all add: demoHost_def)
  from no_webgl_leaves_transparent_container [OF pre, of pageOptions] pre show ?thesis
    by auto
qed

subsection \<open>Pointer throttling\<close>

lemma deliver_blocked:
  assumes "handleMouseMove s = Some (Some due)" "t < due"
  shows "handleMouseMove (deliver (t, e) s) = Some (Some due) \<and>
         accepted (deliver (t, e) s) = accepted s"
proof (cases e)
  case (PointerMove x y)
  then show ?thesis using assms by (simp add: handleMouseMoveCall_def)
next
  case ThrottleTimeout
  then show ?thesis using assms by (simp add: mouseMoveTimeoutFires_def)
next
  case (ViewportResize w h)
  then show ?thesis using assms
    by (simp add: handleResizeCall_def accepted_def Let_def split: option.splits)
next
  case DebounceTimeout
  then show ?thesis using assms
    by (simp add: resizeTimeoutFires_def resizeCallback_def accepted_def Let_def
        split: option.splits)
next
  case AnimationFrame
  then show ?thesis using assms
    by (simp add: animate_def accepted_def isVector2Set_def split: option.splits)
qed

lemma run_blocked:
  "handleMouseMove s = Some (Some due) \<Longrightarrow> \<forall>(t, e) \<in> set evs. t < due \<Longrightarrow>
   accepted (run evs s) = accepted s"
proof (induction evs arbitrary: s)
  case Nil
  then show ?case by simp
next
  case (Cons a evs)
  obtain t e where a: "a = (t, e)" by (cases a)
  with Cons.prems have "t < due" by simp
  from deliver_blocked [OF Cons.prems(1) this, of e]
  have "handleMouseMove (deliver a s) = Some (Some due)" "accepted (deliver a s) = accepted s"
    using a by simp_all
  moreover have "\<forall>(t, e) \<in> set evs. t < due" using Cons.prems(2) by simp
  ultimately show ?case using Cons.IH [of "deliver a s"] by simp
qed

lemma deliver_accepts:
  "accepted (deliver (t, e) s) = accepted s \<or>
   (accepted (deliver (t, e) s) = Suc (accepted s) \<and>
    handleMouseMove (deliver (t, e) s) = Some (Some (t + 16)))"
proof (cases e)
  case (PointerMove x y)
  then show ?thesis
    by (simp add: handleMouseMoveCall_def accepted_def isVector2Set_def Let_def
        split: option.splits)
next
  case ThrottleTimeout
  then show ?thesis by (simp add: mouseMoveTimeoutFires_def accepted_def split: option.splits)
next
  case (ViewportResize w h)
  then show ?thesis
    by (simp add: handleResizeCall_def accepted_def Let_def split: option.splits)
next
  case DebounceTimeout
  then show ?thesis
    by (simp add: resizeTimeoutFires_def resizeCallback_def accepted_def Let_def
        split: option.splits)
next
  case AnimationFrame
  then show ?thesis
    by (simp add: animate_def accepted_def isVector2Set_def split: option.splits)
qed

lemma run_window:
  "\<forall>(t, e) \<in> set evs. t0 \<le> t \<and> t < t0 + 16 \<Longrightarrow> accepted (run evs s) \<le> accepted s + 1"
proof (induction evs arbitrary: s)
  case Nil
  then show ?case by simp
next
  case (Cons a evs)
  obtain t e where a: "a = (t, e)" by (cases a)
  have rest: "\<forall>(t, e) \<in> set evs. t0 \<le> t \<and> t < t0 + 16" using Cons.prems by simp
  have t: "t0 \<le> t" using Cons.prems a by simp
  consider (same) "accepted (deliver a s) = accepted s"
    | (acc) "accepted (deliver a s) = Suc (accepted s)"
        "handleMouseMove (deliver a s) = Some (Some (t + 16))"
    using deliver_accepts [of t e s] a by auto
  then show ?case
  proof cases
    case same
    then show ?thesis using Cons.IH [OF rest, of "deliver a s"] by simp
  next
    case acc
    have "\<forall>(t', e) \<in> set evs. t' < t + 16" using rest t by auto
    from run_blocked [OF acc(2) this] show ?thesis using acc(1) by simp
  qed
qed

text \<open>
  Claim C8: of the events delivered to an instance at times within one window of less
  than 16 ms (from \<open>t0\<close> up to, not including, \<open>t0 + 16\<close>), in any number and mixed
  with any other events, at most one pointer move is accepted, that is, written to
  \<open>this.mouse\<close>.  A pointer move that arrives while the timeout is pending is dropped:
  the handler returns with the instance unchanged, so nothing is kept for later.  The
  host is taken to run a timeout callback no earlier than its due time.
\<close>

theorem pointer_moves_in_one_window:
  "((\<forall>(t, e) \<in> set evs. t0 \<le> t \<and> t < t0 + 16) \<longrightarrow>
      accepted (run evs s) \<le> accepted s + 1) \<and>
   (handleMouseMove s' = Some (Some due) \<longrightarrow> handleMouseMoveCall now x y s' = s')"
  using run_window [of evs t0 s] by (simp add: handleMouseMoveCall_def)

lemma burst_times: "\<forall>(t, e) \<in> set burst. 0 \<le> t \<and> t < 0 + 16"
  by (auto simp: burst_def)

lemma burst_length: "length burst = 100"
  by (simp add: burst_def)

lemma first_accepted:
  "handleMouseMove (deliver (0, PointerMove 0 300) interactivePillar) = Some (Some 16)"
  "accepted interactivePillar = 0"
  "accepted (deliver (0, PointerMove 0 300) interactivePillar) = 1"
  by (simp_all add: handleMouseMoveCall_def accepted_def isVector2Set_def Let_def setup_defs
      demo_defs)

theorem pointer_moves_in_one_window_witness:
  "list_all (\<lambda>(t, e). 0 \<le> t \<and> t < 0 + 16) burst \<and>
   accepted (run burst interactivePillar) \<le> 1 \<and>
   handleMouseMove (deliver (0, PointerMove 0 300) interactivePillar) = Some (Some 16) \<and>
   handleMouseMoveCall 5 400 300 (deliver (0, PointerMove 0 300) interactivePillar)
     = deliver (0, PointerMove 0 300) interactivePillar"
  using pointer_moves_in_one_window [of burst 0 interactivePillar
      "deliver (0, PointerMove 0 300) interactivePillar" 16 5 400 300]
    burst_times first_accepted by (simp add: list_all_iff)

text \<open>On the burst of a hundred moves exactly one, the first, is accepted.\<close>

lemma burst_accepts_one: "accepted (run burst interactivePillar) = 1"
proof -
  let ?rest = "map (\<lambda>k. (real k / 10, PointerMove (real k) 300)) [1..<100]"
  have split: "burst = (0, PointerMove 0 300) # ?rest"
    unfolding burst_def by (subst upt_rec) simp
  have late: "\<forall>(t, e) \<in> set ?rest. t < 16"
    by auto
  have "accepted (run burst interactivePillar)
      = accepted (run ?rest (deliver (0, PointerMove 0 300) interactivePillar))"
    by (simp only: split run.simps)
  also have "\<dots> = accepted (deliver (0, PointerMove 0 300) interactivePillar)"
    by (rule run_blocked [OF first_accepted(1) late])
  also have "\<dots> = 1" by (rule first_accepted(3))
  finally show ?thesis .
qed

subsection \<open>The ray's rotation\<close>

lemma fieldDistance_mouse: "fieldDistance (u\<lparr>uMouse := p\<rparr>) pos = fieldDistance u pos"
  by (cases pos) simp

lemma accumulate_mouse: "accumulate (u\<lparr>uMouse := p\<rparr>) pos c = accumulate u pos c"
  by (cases pos; cases c) (simp add: fieldDistance_mouse del: fieldDistance.simps)

lemma march_mouse:
  "march (u\<lparr>uMouse := p\<rparr>) origin direction m i depth color
     = march u origin direction m i depth color"
proof (induction u origin direction m i depth color rule: march.induct)
  case (1 u origin direction m i depth color)
  show ?case
    by (subst march.simps, subst (2) march.simps)
       (simp add: "1.IH" fieldDistance_mouse accumulate_mouse
          del: fieldDistance.simps accumulate.simps)
qed

lemma rayDirection_mouse: "rayDirection (u\<lparr>uMouse := p\<rparr>) vUv = rayDirection u vUv"
  by (simp add: rayDirection_def)

text \<open>
  Claim C9: the matrix that rotates the ray's horizontal plane is \<open>rot\<close> of
  \<open>uMouse.x * PI * 2\<close> when the instance is interactive and the pointer's length is
  positive, and \<open>rot\<close> of \<open>uTime * 0.3\<close> in every other case (\<open>PI\<close> is the shader's
  constant).  When the instance is not interactive, the matrix and the whole pixel colour
  are those of the same uniforms with the pointer at \<open>(0, 0)\<close>, whatever the pointer is.
\<close>

theorem ray_rotation_angle:
  "(uInteractive u \<and> length_vec2 (uMouse u) > 0 \<longrightarrow> rotX u = rot (fst (uMouse u) * PI * 2)) \<and>
   (\<not> (uInteractive u \<and> length_vec2 (uMouse u) > 0) \<longrightarrow> rotX u = rot (uTime u * 0.3)) \<and>
   (\<not> uInteractive u \<longrightarrow>
      rotX u = rotX (u\<lparr>uMouse := (0, 0)\<rparr>) \<and>
      main u vUv fragXY = main (u\<lparr>uMouse := (0, 0)\<rparr>) vUv fragXY)"
  by (auto simp add: rotX_def main_def march_mouse rayDirection_mouse Let_def)

theorem ray_rotation_angle_witness:
  "(uInteractive (pointerUniforms\<lparr>uInteractive := True\<rparr>) \<and>
    length_vec2 (uMouse (pointerUniforms\<lparr>uInteractive := True\<rparr>)) > 0 \<and>
    rotX (pointerUniforms\<lparr>uInteractive := True\<rparr>) = rot (1 / 2 * PI * 2)) \<and>
   (\<not> (uInteractive pointerUniforms \<and> length_vec2 (uMouse pointerUniforms) > 0) \<and>
    \<not> uInteractive pointerUniforms \<and>
    rotX pointerUniforms = rot (0 * 0.3) \<and>
    main pointerUniforms (1 / 2, 1 / 2) (400, 300) = main pageUniforms (1 / 2, 1 / 2) (400, 300))"
proof -
  have a: "uInteractive (pointerUniforms\<lparr>uInteractive := True\<rparr>)"
    "length_vec2 (uMouse (pointerUniforms\<lparr>uInteractive := True\<rparr>)) > 0"
    "uMouse (pointerUniforms\<lparr>uInteractive := True\<rparr>) = (1 / 2, 0)"
    by (simp_all add: pointerUniforms_def pageUniforms_def)
  have b: "\<not> uInteractive pointerUniforms" "uTime pointerUniforms = 0"
    "pointerUniforms\<lparr>uMouse := (0, 0)\<rparr> = pageUniforms"
    by (simp_all add: pointerUniforms_def pageUniforms_def)
  from ray_rotation_angle [of "pointerUniforms\<lparr>uInteractive := True\<rparr>"]
    ray_rotation_angle [of pointerUniforms "(1 / 2, 1 / 2)" "(400, 300)"] a b
  show ?thesis by simp
qed

text \<open>
  On the script's side, an instance without the mouse-move listener never writes the
  pointer: \<open>setupEventListeners\<close> registers the listener only when \<open>interactive\<close> holds.
\<close>

lemma deliver_without_listener:
  "\<not> mousemoveListener s \<Longrightarrow>
   \<not> mousemoveListener (deliver e s) \<and> mouse (deliver e s) = mouse s"
proof -
  assume off: "\<not> mousemoveListener s"
  obtain t ev where e: "e = (t, ev)" by (cases e)
  show ?thesis
  proof (cases ev)
    case (PointerMove x y)
    then show ?thesis using off e by simp
  next
    case ThrottleTimeout
    then show ?thesis using off e
      by (simp add: mouseMoveTimeoutFires_def split: option.splits)
  next
    case (ViewportResize w h)
    then show ?thesis using off e
      by (simp add: handleResizeCall_def Let_def split: option.splits)
  next
    case DebounceTimeout
    then show ?thesis using off e
      by (simp add: resizeTimeoutFires_def resizeCallback_def Let_def split: option.splits)
  next
    case AnimationFrame
    then show ?thesis using off e
      by (simp add: animate_def split: option.splits)
  qed
qed

lemma run_without_listener:
  "\<not> mousemoveListener s \<Longrightarrow> mouse (run evs s) = mouse s"
proof (induction evs arbitrary: s)
  case Nil
  then show ?case by simp
next
  case (Cons e evs)
  from deliver_without_listener [OF Cons.prems, of e]
  have "\<not> mousemoveListener (deliver e s)" "mouse (deliver e s) = mouse s" by simp_all
  then show ?case using Cons.IH [of "deliver e s"] by simp
qed

lemma page_instance_pointer_stays: "mouse (run evs demoPillar) = (0, 0)"
proof -
  have "\<not> mousemoveListener demoPillar" "mouse demoPillar = (0, 0)"
    by (simp_all add: setup_defs demo_defs)
  then show ?thesis using run_without_listener [of demoPillar evs] by simp
qed

subsection \<open>The floor of the field value\<close>

lemma fieldDistance_floor: "0.01 \<le> fieldDistance u pos"
  by (cases pos) (simp add: Let_def split: prod.splits)

lemma fieldDistance_not_hit: "EPSILON \<le> fieldDistance u pos"
  using fieldDistance_floor [of u pos] by (simp add: EPSILON_def)





subsection \<open>The march of the centre pixel\<close>

text \<open>
  The number of iterations is bounded through a cover of the depths: when the field value
  on an interval is at least the interval's length, a sample inside the interval is
  followed by a sample beyond it, so each interval of a cover holds at most one sample.
  The bounds of the field value come from enclosures of the cosines, computed in integer
  arithmetic and proved against the real functions below.
\<close>

lemma cos_poly12:
  fixes x :: real
  shows "\<bar>cos x - (1 - x^2 / 2 + x^4 / 24 - x^6 / 720 + x^8 / 40320 - x^10 / 3628800)\<bar>
           \<le> \<bar>x\<bar>^12 / 479001600"
proof -
  obtain t where "cos x = (\<Sum>m<12. cos_coeff m * x ^ m) + (cos (t + 1/2 * real (12::nat) * pi) / fact 12) * x ^ 12"
    using Maclaurin_cos_expansion [of x 12] by blast
  moreover have "(\<Sum>m<12. cos_coeff m * x ^ m)
      = 1 - x^2 / 2 + x^4 / 24 - x^6 / 720 + x^8 / 40320 - x^10 / 3628800"
  proof -
    have "{..<12::nat} = {0, 1, 2, 3, 4, 5, 6, 7, 8, 9, 10, 11}" by (auto; arith)
    then show ?thesis by (simp add: cos_coeff_def fact_numeral)
  qed
  moreover have "\<bar>(cos (t + 1/2 * real (12::nat) * pi) / fact 12) * x ^ 12\<bar> \<le> \<bar>x\<bar>^12 / 479001600"
  proof -
    have "\<bar>cos (t + 1/2 * real (12::nat) * pi)\<bar> \<le> 1" by (rule abs_cos_le_one)
    then have "\<bar>cos (t + 1/2 * real (12::nat) * pi)\<bar> * \<bar>x\<bar>^12 \<le> 1 * \<bar>x\<bar>^12"
      by (rule mult_right_mono) simp
    moreover have "fact 12 = (479001600::real)" by (simp add: fact_numeral)
    ultimately show ?thesis by (simp add: abs_mult power_abs divide_simps)
  qed
  ultimately show ?thesis by simp
qed

lemma sin_poly12:
  fixes x :: real
  shows "\<bar>sin x - (x - x^3 / 6 + x^5 / 120 - x^7 / 5040 + x^9 / 362880 - x^11 / 39916800)\<bar>
           \<le> \<bar>x\<bar>^12 / 479001600"
proof -
  have "\<bar>sin x - (\<Sum>m<12. sin_coeff m * x ^ m)\<bar> \<le> inverse (fact 12) * \<bar>x\<bar> ^ 12"
    by (rule Maclaurin_sin_bound)
  moreover have "(\<Sum>m<12. sin_coeff m * x ^ m)
      = x - x^3 / 6 + x^5 / 120 - x^7 / 5040 + x^9 / 362880 - x^11 / 39916800"
  proof -
    have "{..<12::nat} = {0, 1, 2, 3, 4, 5, 6, 7, 8, 9, 10, 11}" by (auto; arith)
    then show ?thesis by (simp add: sin_coeff_def fact_numeral)
  qed
  moreover have "fact 12 = (479001600::real)" by (simp add: fact_numeral)
  ultimately show ?thesis by (simp add: divide_simps)
qed

lemma pi_lower: "5235987753 / 10^10 < pi / 6"
proof -
  let ?a = "5235987753 / 10^10 :: real"
  have "sin ?a \<le> (?a - ?a^3 / 6 + ?a^5 / 120 - ?a^7 / 5040 + ?a^9 / 362880 - ?a^11 / 39916800)
      + \<bar>?a\<bar>^12 / 479001600"
    using sin_poly12 [of ?a] by linarith
  also have "\<dots> < 1 / 2" by (simp add: power_divide)
  finally have "sin ?a < sin (pi / 6)" by (simp add: sin_30)
  moreover have "- (pi / 2) \<le> ?a" "?a \<le> pi / 2" "- (pi / 2) \<le> pi / 6" "pi / 6 \<le> pi / 2"
    using pi_ge_two by simp_all
  ultimately show ?thesis using sin_mono_less_eq [of ?a "pi / 6"] by blast
qed

lemma pi_upper: "pi / 6 < 523598776 / 10^9"
proof -
  let ?b = "523598776 / 10^9 :: real"
  have "(?b - ?b^3 / 6 + ?b^5 / 120 - ?b^7 / 5040 + ?b^9 / 362880 - ?b^11 / 39916800)
      - \<bar>?b\<bar>^12 / 479001600 \<le> sin ?b"
    using sin_poly12 [of ?b] by linarith
  moreover have "1 / 2 < (?b - ?b^3 / 6 + ?b^5 / 120 - ?b^7 / 5040 + ?b^9 / 362880 - ?b^11 / 39916800)
      - \<bar>?b\<bar>^12 / 479001600" by (simp add: power_divide)
  ultimately have "sin (pi / 6) < sin ?b" by (simp add: sin_30)
  moreover have "- (pi / 2) \<le> ?b" "?b \<le> pi / 2" "- (pi / 2) \<le> pi / 6" "pi / 6 \<le> pi / 2"
    using pi_ge_two by simp_all
  ultimately show ?thesis using sin_mono_less_eq [of "pi / 6" ?b] by blast
qed

lemma pi_fx: "\<bar>pi * 268435456 - 843314857\<bar> \<le> 1"
proof -
  have "31415926518 / 10^10 < pi" using pi_lower by simp
  moreover have "pi < 3141592656 / 10^9" using pi_upper by simp
  moreover have "(843314856 / 268435456 :: real) \<le> 31415926518 / 10^10"
    "(3141592656 / 10^9 :: real) \<le> 843314858 / 268435456" by simp_all
  ultimately have "843314856 / 268435456 \<le> pi" "pi \<le> 843314858 / 268435456" by linarith+
  then have "843314856 \<le> pi * 268435456" "pi * 268435456 \<le> 843314858" by (simp_all add: field_simps)
  then show ?thesis by (simp add: abs_le_iff)
qed

lemma cos04_fx: "\<bar>cos (4 / 10 :: real) * 16777216 - 15452839\<bar> \<le> 1"
proof -
  let ?x = "4 / 10 :: real"
  have "\<bar>cos ?x - (1 - ?x^2 / 2 + ?x^4 / 24 - ?x^6 / 720 + ?x^8 / 40320 - ?x^10 / 3628800)\<bar>
           \<le> \<bar>?x\<bar>^12 / 479001600" by (rule cos_poly12)
  then have "\<bar>cos ?x - 127500386621 / 138427734375\<bar> \<le> 4 / 114202880859375"
    by (simp add: power_divide)
  then have "127500386621 / 138427734375 - 4 / 114202880859375 \<le> cos ?x"
    "cos ?x \<le> 127500386621 / 138427734375 + 4 / 114202880859375" by linarith+
  moreover have "(15452838 / 16777216 :: real) \<le> 127500386621 / 138427734375 - 4 / 114202880859375"
    "(127500386621 / 138427734375 + 4 / 114202880859375 :: real) \<le> 15452840 / 16777216" by simp_all
  ultimately have "15452838 / 16777216 \<le> cos ?x" "cos ?x \<le> 15452840 / 16777216" by linarith+
  then have "15452838 \<le> cos ?x * 16777216" "cos ?x * 16777216 \<le> 15452840" by (simp_all add: field_simps)
  then show ?thesis by (simp add: abs_le_iff)
qed

lemma sin04_fx: "\<bar>sin (4 / 10 :: real) * 16777216 - 6533356\<bar> \<le> 1"
proof -
  let ?x = "4 / 10 :: real"
  have "\<bar>sin ?x - (?x - ?x^3 / 6 + ?x^5 / 120 - ?x^7 / 5040 + ?x^9 / 362880 - ?x^11 / 39916800)\<bar>
           \<le> \<bar>?x\<bar>^12 / 479001600" by (rule sin_poly12)
  then have "\<bar>sin ?x - 2964846436742 / 7613525390625\<bar> \<le> 4 / 114202880859375"
    by (simp add: power_divide)
  then have "2964846436742 / 7613525390625 - 4 / 114202880859375 \<le> sin ?x"
    "sin ?x \<le> 2964846436742 / 7613525390625 + 4 / 114202880859375" by linarith+
  moreover have "(6533355 / 16777216 :: real) \<le> 2964846436742 / 7613525390625 - 4 / 114202880859375"
    "(2964846436742 / 7613525390625 + 4 / 114202880859375 :: real) \<le> 6533357 / 16777216" by simp_all
  ultimately have "6533355 / 16777216 \<le> sin ?x" "sin ?x \<le> 6533357 / 16777216" by linarith+
  then have "6533355 \<le> sin ?x * 16777216" "sin ?x * 16777216 \<le> 6533357" by (simp_all add: field_simps)
  then show ?thesis by (simp add: abs_le_iff)
qed

lemma cos04_le: "cos (4 / 10 :: real) \<le> 236 / 256" "0 \<le> cos (4 / 10 :: real)"
proof -
  have "15452838 \<le> cos (4 / 10 :: real) * 16777216" "cos (4 / 10 :: real) * 16777216 \<le> 15452840"
    using cos04_fx by (simp_all add: abs_le_iff)
  then show "cos (4 / 10 :: real) \<le> 236 / 256" "0 \<le> cos (4 / 10 :: real)" by linarith+
qed

lemma sin04_le: "sin (4 / 10 :: real) \<le> 100 / 256" "0 \<le> sin (4 / 10 :: real)"
proof -
  have "6533355 \<le> sin (4 / 10 :: real) * 16777216" "sin (4 / 10 :: real) * 16777216 \<le> 6533357"
    using sin04_fx by (simp_all add: abs_le_iff)
  then show "sin (4 / 10 :: real) \<le> 100 / 256" "0 \<le> sin (4 / 10 :: real)" by linarith+
qed

lemma drop_bit_real:
  "real_of_int (drop_bit n x) \<le> real_of_int x / 2^n"
  "real_of_int x / 2^n < real_of_int (drop_bit n x) + 1"
proof -
  have eq: "drop_bit n x = \<lfloor>real_of_int x / real_of_int (2^n)\<rfloor>"
    by (simp only: floor_divide_of_int_eq drop_bit_eq_div)
  show "real_of_int (drop_bit n x) \<le> real_of_int x / 2^n"
    unfolding eq by simp
  show "real_of_int x / 2^n < real_of_int (drop_bit n x) + 1"
    unfolding eq by simp
qed

lemma cos_lipschitz: "\<bar>cos x - cos y\<bar> \<le> \<bar>x - y\<bar>" for x y :: real
proof -
  have "cos x - cos y = 2 * sin ((x + y) / 2) * sin ((y - x) / 2)" by (rule cos_diff_cos)
  then have "\<bar>cos x - cos y\<bar> = 2 * \<bar>sin ((x + y) / 2)\<bar> * \<bar>sin ((y - x) / 2)\<bar>"
    by (simp add: abs_mult)
  also have "\<dots> \<le> 2 * (1 * \<bar>(y - x) / 2\<bar>)"
  proof -
    have a: "\<bar>sin ((x + y) / 2)\<bar> \<le> 1" by simp
    have b: "\<bar>sin ((y - x) / 2)\<bar> \<le> \<bar>(y - x) / 2\<bar>" by (rule abs_sin_x_le_abs_x)
    have "\<bar>sin ((x + y) / 2)\<bar> * \<bar>sin ((y - x) / 2)\<bar> \<le> 1 * \<bar>(y - x) / 2\<bar>"
      by (rule mult_mono [OF a b]) simp_all
    then show ?thesis by simp
  qed
  also have "\<dots> = \<bar>x - y\<bar>" by simp
  finally show ?thesis .
qed

lemma cos_shift_int: "cos (y + real_of_int k * pi) = (if even k then cos y else - cos y)"
proof -
  have "cos (y + real_of_int k * pi) = cos y * cos (pi * of_int k) - sin y * sin (pi * of_int k)"
    by (simp add: cos_add mult.commute)
  then show ?thesis by simp
qed

text \<open>One level of the fixed-point Horner scheme.\<close>

lemma horner_step:
  fixes U R A e B :: real and u t a :: int
  assumes U: "0 \<le> U" "U \<le> 257 / 100"
    and u: "real_of_int u \<le> U * 65536" "U * 65536 < real_of_int u + 1" "0 \<le> u"
    and R: "\<bar>R - real_of_int t\<bar> \<le> e" "\<bar>R\<bar> \<le> B"
    and A: "\<bar>A - real_of_int a\<bar> \<le> 1 / 2"
  shows "\<bar>(A - U * R) - real_of_int (a - drop_bit 16 (u * t))\<bar>
           \<le> 3 / 2 + B / 65536 + 257 / 100 * e"
proof -
  let ?d = "real_of_int (drop_bit 16 (u * t))"
  let ?q = "real_of_int u * real_of_int t / 65536"
  have d: "?d \<le> ?q" "?q < ?d + 1"
    using drop_bit_real [where n = 16 and x = "u * t"] by simp_all
  have e0: "0 \<le> e" using R(1) by linarith
  have "U * R - ?q = (U - real_of_int u / 65536) * R + (real_of_int u / 65536) * (R - real_of_int t)"
    by (simp add: field_simps)
  moreover have "\<bar>(U - real_of_int u / 65536) * R\<bar> \<le> (1 / 65536) * B"
  proof -
    have "\<bar>U - real_of_int u / 65536\<bar> \<le> 1 / 65536" using u by (simp add: abs_le_iff field_simps)
    then show ?thesis unfolding abs_mult using R(2) by (intro mult_mono) simp_all
  qed
  moreover have "\<bar>(real_of_int u / 65536) * (R - real_of_int t)\<bar> \<le> (257 / 100) * e"
  proof -
    have "\<bar>real_of_int u / 65536\<bar> \<le> 257 / 100" using u U by (simp add: abs_le_iff field_simps)
    then show ?thesis unfolding abs_mult using R(1) e0 by (intro mult_mono) simp_all
  qed
  ultimately have "\<bar>U * R - ?q\<bar> \<le> B / 65536 + 257 / 100 * e" by linarith
  then have "\<bar>U * R - ?d\<bar> \<le> 1 + B / 65536 + 257 / 100 * e" using d by linarith
  moreover have "\<bar>(A - U * R) - (real_of_int a - ?d)\<bar>
      \<le> \<bar>A - real_of_int a\<bar> + \<bar>U * R - ?d\<bar>" by linarith
  ultimately show ?thesis using A unfolding of_int_diff by linarith
qed

lemma horner_bound:
  fixes U R A B :: real
  assumes "0 \<le> U" "U \<le> 257 / 100" "\<bar>R\<bar> \<le> B"
  shows "\<bar>A - U * R\<bar> \<le> \<bar>A\<bar> + 257 / 100 * B"
proof -
  have "\<bar>U * R\<bar> \<le> 257 / 100 * B"
    unfolding abs_mult using assms by (intro mult_mono) simp_all
  then show ?thesis by linarith
qed

lemma fx_cos_sound:
  assumes "fx_cos v = (c, k)"
  shows "\<bar>cos (real_of_int v / 65536) * 65536 - real_of_int c\<bar> \<le> real_of_int k"
proof -
  define k0 where "k0 = drop_bit 32 (v * 20861 + 2147483648)"
  define r where "r = drop_bit 12 (k0 * 843314857 + 2048)"
  define y where "y = v - r"
  define u where "u = drop_bit 16 (y * y)"
  define t4 where "t4 = 416 - drop_bit 16 (u * 5)"
  define t3 where "t3 = 23302 - drop_bit 16 (u * t4)"
  define t2 where "t2 = 699051 - drop_bit 16 (u * t3)"
  define t1 where "t1 = 8388608 - drop_bit 16 (u * t2)"
  define T where "T = 16777216 - drop_bit 16 (u * t1)"
  define c0 where "c0 = drop_bit 8 T"
  have unfold: "fx_cos v = (if \<bar>y\<bar> > 105000 \<or> \<bar>k0\<bar> > 4096 then (0, 65536)
      else (if even k0 then c0 else - c0, 4))"
    by (simp only: fx_cos_def Let_def k0_def r_def y_def u_def t4_def t3_def t2_def t1_def
        T_def c0_def)
  show ?thesis
  proof (cases "\<bar>y\<bar> > 105000 \<or> \<bar>k0\<bar> > 4096")
    case True
    then have ck: "c = 0" "k = 65536"
      using assms unfold by simp_all
    have "\<bar>cos (real_of_int v / 65536)\<bar> \<le> 1" by simp
    then show ?thesis unfolding ck by (simp add: abs_mult)
  next
    case False
    then have ylim: "\<bar>y\<bar> \<le> 105000" and klim: "\<bar>k0\<bar> \<le> 4096" by simp_all
    have ck: "c = (if even k0 then c0 else - c0)" "k = 4"
      using assms False unfold by simp_all
    define Y where "Y = real_of_int v / 65536 - real_of_int k0 * pi"
    define Yq where "Yq = real_of_int y / 65536"
    define U where "U = Yq * Yq"
    have cosX: "cos (real_of_int v / 65536) = (if even k0 then cos Y else - cos Y)"
      using cos_shift_int [of Y k0] by (simp add: Y_def)
    have r: "real_of_int r \<le> (real_of_int k0 * 843314857 + 2048) / 4096"
      "(real_of_int k0 * 843314857 + 2048) / 4096 < real_of_int r + 1"
      using drop_bit_real [where n = 12 and x = "k0 * 843314857 + 2048"] by (simp_all add: r_def)
    define w where "w = real_of_int k0 * pi"
    have "\<bar>real_of_int k0 * (pi * 268435456 - 843314857)\<bar> \<le> 4096 * 1"
      unfolding abs_mult using klim pi_fx by (intro mult_mono) simp_all
    moreover have "real_of_int k0 * (pi * 268435456 - 843314857)
        = w * 268435456 - real_of_int k0 * 843314857"
      by (simp add: w_def algebra_simps)
    ultimately have kpi: "\<bar>w * 268435456 - real_of_int k0 * 843314857\<bar> \<le> 4096"
      by simp
    have Yy: "\<bar>Y * 65536 - real_of_int y\<bar> \<le> 3 / 2"
    proof -
      have "Y * 65536 - real_of_int y = real_of_int r - w * 65536"
        by (simp add: Y_def y_def w_def algebra_simps)
      moreover have "real_of_int r * 4096 \<le> real_of_int k0 * 843314857 + 2048"
        "real_of_int k0 * 843314857 + 2048 < real_of_int r * 4096 + 4096"
        using r by (simp_all add: field_simps)
      ultimately show ?thesis using kpi by linarith
    qed
    have lip: "\<bar>cos Y - cos Yq\<bar> \<le> 3 / 2 / 65536"
    proof -
      have "\<bar>Y - Yq\<bar> \<le> 3 / 2 / 65536" using Yy by (simp add: Yq_def abs_le_iff field_simps)
      then show ?thesis using cos_lipschitz [of Y Yq] by linarith
    qed
    have Yqlim: "\<bar>Yq\<bar> \<le> 105000 / 65536"
      using ylim by (simp add: Yq_def abs_le_iff field_simps)
    have Ulim: "0 \<le> U" "U \<le> 257 / 100"
    proof -
      show "0 \<le> U" by (simp add: U_def)
      have "\<bar>Yq\<bar> * \<bar>Yq\<bar> \<le> (105000 / 65536) * (105000 / 65536)"
        using Yqlim by (intro mult_mono) simp_all
      then show "U \<le> 257 / 100" by (simp add: U_def abs_mult_self_eq)
    qed
    define P where "P = 1 - Yq^2 / 2 + Yq^4 / 24 - Yq^6 / 720 + Yq^8 / 40320 - Yq^10 / 3628800"
    have rem: "\<bar>cos Yq - P\<bar> \<le> 4 / 100 / 65536"
    proof -
      have "\<bar>Yq\<bar>^12 \<le> (105000 / 65536)^12" using Yqlim by (intro power_mono) simp_all
      also have "\<dots> / 479001600 \<le> (4 / 100 / 65536 :: real)" by (simp add: power_divide)
      finally have "\<bar>Yq\<bar>^12 / 479001600 \<le> 4 / 100 / 65536" by (simp add: divide_right_mono)
      then show ?thesis using cos_poly12 [of Yq] unfolding P_def by linarith
    qed
    have u: "real_of_int u \<le> U * 65536" "U * 65536 < real_of_int u + 1" "0 \<le> u"
    proof -
      have d: "real_of_int u \<le> real_of_int (y * y) / 65536"
        "real_of_int (y * y) / 65536 < real_of_int u + 1"
        using drop_bit_real [where n = 16 and x = "y * y"] by (simp_all add: u_def)
      have UU: "U * 65536 = real_of_int (y * y) / 65536" by (simp add: U_def Yq_def)
      show "real_of_int u \<le> U * 65536" "U * 65536 < real_of_int u + 1" using d UU by simp_all
      have "0 \<le> real_of_int (y * y) / 65536" by simp
      then have "- 1 < real_of_int u" using d(2) by linarith
      then show "0 \<le> u" by linarith
    qed
    define R5 where "R5 = (16777216 / 3628800 :: real)"
    define R4 where "R4 = 16777216 / 40320 - U * R5"
    define R3 where "R3 = 16777216 / 720 - U * R4"
    define R2 where "R2 = 16777216 / 24 - U * R3"
    define R1 where "R1 = 16777216 / 2 - U * R2"
    define R0 where "R0 = 16777216 - U * R1"
    have b5: "\<bar>R5\<bar> \<le> 5" and e5: "\<bar>R5 - real_of_int 5\<bar> \<le> 2 / 5"
      by (simp_all add: R5_def)
    have e4: "\<bar>R4 - real_of_int t4\<bar> \<le> 13 / 5"
    proof -
      have "\<bar>(16777216 / 40320 - U * R5) - real_of_int (416 - drop_bit 16 (u * 5))\<bar>
          \<le> 3 / 2 + 5 / 65536 + 257 / 100 * (2 / 5)"
        by (rule horner_step [OF Ulim u e5 b5]) simp
      then show ?thesis by (simp add: R4_def t4_def)
    qed
    have b4: "\<bar>R4\<bar> \<le> 430"
      using horner_bound [OF Ulim b5, of "16777216 / 40320"] by (simp add: R4_def)
    have e3: "\<bar>R3 - real_of_int t3\<bar> \<le> 41 / 5"
    proof -
      have "\<bar>(16777216 / 720 - U * R4) - real_of_int (23302 - drop_bit 16 (u * t4))\<bar>
          \<le> 3 / 2 + 430 / 65536 + 257 / 100 * (13 / 5)"
        by (rule horner_step [OF Ulim u e4 b4]) simp
      then show ?thesis by (simp add: R3_def t3_def)
    qed
    have b3: "\<bar>R3\<bar> \<le> 24500"
      using horner_bound [OF Ulim b4, of "16777216 / 720"] by (simp add: R3_def)
    have e2: "\<bar>R2 - real_of_int t2\<bar> \<le> 23"
    proof -
      have "\<bar>(16777216 / 24 - U * R3) - real_of_int (699051 - drop_bit 16 (u * t3))\<bar>
          \<le> 3 / 2 + 24500 / 65536 + 257 / 100 * (41 / 5)"
        by (rule horner_step [OF Ulim u e3 b3]) simp
      then show ?thesis by (simp add: R2_def t2_def)
    qed
    have b2: "\<bar>R2\<bar> \<le> 762100"
      using horner_bound [OF Ulim b3, of "16777216 / 24"] by (simp add: R2_def)
    have e1: "\<bar>R1 - real_of_int t1\<bar> \<le> 723 / 10"
    proof -
      have "\<bar>(16777216 / 2 - U * R2) - real_of_int (8388608 - drop_bit 16 (u * t2))\<bar>
          \<le> 3 / 2 + 762100 / 65536 + 257 / 100 * 23"
        by (rule horner_step [OF Ulim u e2 b2]) simp
      then show ?thesis by (simp add: R1_def t1_def)
    qed
    have b1: "\<bar>R1\<bar> \<le> 10347300"
      using horner_bound [OF Ulim b2, of "16777216 / 2"] by (simp add: R1_def)
    have e0: "\<bar>R0 - real_of_int T\<bar> \<le> 3453 / 10"
    proof -
      have "\<bar>(16777216 - U * R1) - real_of_int (16777216 - drop_bit 16 (u * t1))\<bar>
          \<le> 3 / 2 + 10347300 / 65536 + 257 / 100 * (723 / 10)"
        by (rule horner_step [OF Ulim u e1 b1]) simp
      then show ?thesis by (simp add: R0_def T_def)
    qed
    have RP: "R0 = 16777216 * P"
      by (simp add: R0_def R1_def R2_def R3_def R4_def R5_def P_def U_def power_def algebra_simps)
    have c0: "\<bar>P * 65536 - real_of_int c0\<bar> \<le> 3453 / 10 / 256 + 1"
    proof -
      have d: "real_of_int c0 \<le> real_of_int T / 256" "real_of_int T / 256 < real_of_int c0 + 1"
        using drop_bit_real [where n = 8 and x = T] by (simp_all add: c0_def)
      have "P * 65536 = R0 / 256" by (simp add: RP)
      moreover have "\<bar>R0 / 256 - real_of_int T / 256\<bar> \<le> 3453 / 10 / 256"
        using e0 by linarith
      ultimately show ?thesis using d by linarith
    qed
    have main: "\<bar>cos Y * 65536 - real_of_int c0\<bar> \<le> 4"
    proof -
      have "\<bar>cos Y * 65536 - cos Yq * 65536\<bar> \<le> 3 / 2"
        using lip by linarith
      moreover have "\<bar>cos Yq * 65536 - P * 65536\<bar> \<le> 4 / 100"
        using rem by linarith
      ultimately show ?thesis using c0 by linarith
    qed
    show ?thesis
    proof (cases "even k0")
      case True
      then show ?thesis using main cosX ck by simp
    next
      case False
      then have "cos (real_of_int v / 65536) * 65536 - real_of_int c
          = - (cos Y * 65536 - real_of_int c0)" using cosX ck by simp
      then show ?thesis using main ck by simp
    qed
  qed
qed

lemma approx_cosE:
  assumes "approx p X"
  shows "approx (fx_cosE p) (cos X)"
proof (cases "fst p = 0 \<and> snd p = 0")
  case True
  with assms have "X = 0" by (simp add: approx_def)
  with True show ?thesis by (simp add: approx_def fx_cosE_def)
next
  case False
  obtain c k where ck: "fx_cos (fst p) = (c, k)" by (cases "fx_cos (fst p)")
  have s: "\<bar>cos (real_of_int (fst p) / 65536) * 65536 - real_of_int c\<bar> \<le> real_of_int k"
    by (rule fx_cos_sound [OF ck])
  have "\<bar>X - real_of_int (fst p) / 65536\<bar> \<le> real_of_int (snd p) / 65536"
    using assms unfolding approx_def by linarith
  then have "\<bar>cos X - cos (real_of_int (fst p) / 65536)\<bar> \<le> real_of_int (snd p) / 65536"
    using cos_lipschitz [of X "real_of_int (fst p) / 65536"] by linarith
  then have "\<bar>cos X * 65536 - real_of_int c\<bar> \<le> real_of_int (snd p) + real_of_int k"
    using s by linarith
  moreover have "fx_cosE p = (c, snd p + k)" using False ck by (auto simp: fx_cosE_def)
  ultimately show ?thesis by (simp add: approx_def)
qed

lemma approx_push:
  assumes "approx p Q"
  shows "approx (push_bit i (fst p), push_bit i (snd p)) (Q * 2 ^ i)"
proof -
  have "\<bar>Q * 65536 - real_of_int (fst p)\<bar> * 2 ^ i \<le> real_of_int (snd p) * 2 ^ i"
    using assms unfolding approx_def by (intro mult_right_mono) simp_all
  moreover have "\<bar>Q * 65536 - real_of_int (fst p)\<bar> * 2 ^ i
      = \<bar>Q * 2 ^ i * 65536 - real_of_int (fst p) * 2 ^ i\<bar>"
  proof -
    have "\<bar>Q * 65536 - real_of_int (fst p)\<bar> * 2 ^ i
        = \<bar>(Q * 65536 - real_of_int (fst p)) * 2 ^ i\<bar>" by (simp add: abs_mult)
    also have "(Q * 65536 - real_of_int (fst p)) * 2 ^ i
        = Q * 2 ^ i * 65536 - real_of_int (fst p) * 2 ^ i" by (simp add: algebra_simps)
    finally show ?thesis .
  qed
  ultimately show ?thesis by (simp add: approx_def push_bit_eq_mult)
qed

lemma approx_osc:
  assumes "approx p Q"
  shows "approx (fx_osc i p) (cos (Q * 2 ^ i) * (1 / 2) ^ i)"
proof -
  define c where "c = fx_cosE (push_bit i (fst p), push_bit i (snd p))"
  have c: "approx c (cos (Q * 2 ^ i))"
    unfolding c_def by (rule approx_cosE [OF approx_push [OF assms]])
  let ?C = "cos (Q * 2 ^ i)"
  have d1: "real_of_int (drop_bit i (fst c)) \<le> real_of_int (fst c) / 2 ^ i"
    "real_of_int (fst c) / 2 ^ i < real_of_int (drop_bit i (fst c)) + 1"
    using drop_bit_real [where n = i and x = "fst c"] by simp_all
  have d2: "real_of_int (snd c) / 2 ^ i < real_of_int (drop_bit i (snd c)) + 1"
    using drop_bit_real [where n = i and x = "snd c"] by simp
  have "\<bar>?C * 65536 - real_of_int (fst c)\<bar> / 2 ^ i \<le> real_of_int (snd c) / 2 ^ i"
    using c unfolding approx_def by (intro divide_right_mono) simp_all
  moreover have "\<bar>?C * 65536 - real_of_int (fst c)\<bar> / 2 ^ i
      = \<bar>?C * (1 / 2) ^ i * 65536 - real_of_int (fst c) / 2 ^ i\<bar>"
  proof -
    have "\<bar>?C * 65536 - real_of_int (fst c)\<bar> / 2 ^ i
        = \<bar>(?C * 65536 - real_of_int (fst c)) / 2 ^ i\<bar>" by simp
    also have "(?C * 65536 - real_of_int (fst c)) / 2 ^ i
        = ?C * (1 / 2) ^ i * 65536 - real_of_int (fst c) / 2 ^ i"
      by (simp add: power_divide diff_divide_distrib)
    finally show ?thesis .
  qed
  ultimately have "\<bar>?C * (1 / 2) ^ i * 65536 - real_of_int (drop_bit i (fst c))\<bar>
      \<le> real_of_int (drop_bit i (snd c)) + 2"
    using d1 d2 by linarith
  then show ?thesis by (simp add: approx_def fx_osc_def Let_def c_def)
qed

lemma approx_add:
  assumes "approx p X" "approx q Y"
  shows "approx (fx_add p q) (X + Y)"
  using assms unfolding approx_def fx_add_def by (simp add: algebra_simps)

lemma abs_mult_le:
  fixes a A d e :: real
  assumes "0 \<le> a" "a \<le> A" "\<bar>d\<bar> \<le> e"
  shows "\<bar>a * d\<bar> \<le> A * e"
proof -
  have "0 \<le> e" using assms(3) by linarith
  have "\<bar>a\<bar> * \<bar>d\<bar> \<le> A * e"
    using assms \<open>0 \<le> e\<close> by (intro mult_mono) simp_all
  then show ?thesis by (simp add: abs_mult)
qed

lemma abs_mult_le2:
  fixes x d D :: real
  assumes "\<bar>d\<bar> \<le> D"
  shows "\<bar>x * d\<bar> \<le> \<bar>x\<bar> * D"
  unfolding abs_mult using assms by (intro mult_left_mono) simp_all

lemma rot_error:
  fixes W Q t1 t2 t3 t4 b1 b2 b3 b4 v a e :: real
  assumes "W - Q = t1 + t2 + t3 + t4"
    and "\<bar>t1\<bar> \<le> b1" "\<bar>t2\<bar> \<le> b2" "\<bar>t3\<bar> \<le> b3" "\<bar>t4\<bar> \<le> b4"
    and "v \<le> Q" "Q < v + 1" "b1 + b3 < a + 1" "b2 + b4 + 2 < e"
  shows "\<bar>W - v\<bar> \<le> a + e"
proof -
  have "\<bar>t1 + t2\<bar> \<le> b1 + b2" using assms(2,3) by linarith
  moreover have "\<bar>t3 + t4\<bar> \<le> b3 + b4" using assms(4,5) by linarith
  ultimately have "\<bar>W - Q\<bar> \<le> b1 + b2 + b3 + b4" using assms(1) by linarith
  then show ?thesis using assms(6-9) by linarith
qed

lemma approx_rot:
  assumes X: "approx p X" and Z: "approx q Z"
  shows "approx (fst (fx_rot p q)) (X * cos (4 / 10) - Z * sin (4 / 10))"
    and "approx (snd (fx_rot p q)) (X * sin (4 / 10) + Z * cos (4 / 10))"
proof -
  define c where "c = cos (4 / 10 :: real)"
  define s where "s = sin (4 / 10 :: real)"
  define x where "x = real_of_int (fst p)"
  define z where "z = real_of_int (fst q)"
  define ex where "ex = real_of_int (snd p)"
  define ez where "ez = real_of_int (snd q)"
  define dx where "dx = X * 65536 - x"
  define dz where "dz = Z * 65536 - z"
  define dc where "dc = c - 15452839 / 16777216"
  define ds where "ds = s - 6533356 / 16777216"
  have dxe: "\<bar>dx\<bar> \<le> ex" and dze: "\<bar>dz\<bar> \<le> ez"
    using X Z by (simp_all add: approx_def dx_def dz_def x_def z_def ex_def ez_def)
  have ex0: "0 \<le> ex" and ez0: "0 \<le> ez" using dxe dze by linarith+
  have c: "0 \<le> c" "c \<le> 236 / 256" and s: "0 \<le> s" "s \<le> 100 / 256"
    using cos04_le sin04_le by (simp_all add: c_def s_def)
  have dc: "\<bar>dc\<bar> \<le> 1 / 16777216" and ds: "\<bar>ds\<bar> \<le> 1 / 16777216"
    using cos04_fx sin04_fx unfolding dc_def ds_def c_def s_def by linarith+
  have p1: "\<bar>c * dx\<bar> \<le> 236 / 256 * ex" and p2: "\<bar>s * dz\<bar> \<le> 100 / 256 * ez"
    and p3: "\<bar>s * dx\<bar> \<le> 100 / 256 * ex" and p4: "\<bar>c * dz\<bar> \<le> 236 / 256 * ez"
    using abs_mult_le [OF c dxe] abs_mult_le [OF s dze] abs_mult_le [OF s dxe]
      abs_mult_le [OF c dze] by simp_all
  have q1: "\<bar>x * dc\<bar> \<le> \<bar>x\<bar> / 16777216" and q2: "\<bar>z * ds\<bar> \<le> \<bar>z\<bar> / 16777216"
    and q3: "\<bar>x * ds\<bar> \<le> \<bar>x\<bar> / 16777216" and q4: "\<bar>z * dc\<bar> \<le> \<bar>z\<bar> / 16777216"
    using abs_mult_le2 [OF dc, of x] abs_mult_le2 [OF ds, of z] abs_mult_le2 [OF ds, of x]
      abs_mult_le2 [OF dc, of z] by simp_all
  define er where "er = drop_bit 24 (\<bar>fst p\<bar> + \<bar>fst q\<bar>) + 3"
  have er: "(\<bar>x\<bar> + \<bar>z\<bar>) / 16777216 + 2 < real_of_int er"
    using drop_bit_real(2) [where n = 24 and x = "\<bar>fst p\<bar> + \<bar>fst q\<bar>"]
    by (simp add: er_def x_def z_def)
  define vx where "vx = drop_bit 24 (fst p * 15452839 - fst q * 6533356)"
  define ax where "ax = drop_bit 8 (snd p * 236 + snd q * 100)"
  have vx: "real_of_int vx \<le> (x * 15452839 - z * 6533356) / 16777216"
    "(x * 15452839 - z * 6533356) / 16777216 < real_of_int vx + 1"
    using drop_bit_real [where n = 24 and x = "fst p * 15452839 - fst q * 6533356"]
    by (simp_all add: vx_def x_def z_def)
  have ax: "(ex * 236 + ez * 100) / 256 < real_of_int ax + 1"
    using drop_bit_real(2) [where n = 8 and x = "snd p * 236 + snd q * 100"]
    by (simp add: ax_def ex_def ez_def)
  have "(X * c - Z * s) * 65536 - (x * 15452839 - z * 6533356) / 16777216
      = c * dx + x * dc + - (s * dz) + - (z * ds)"
    by (simp add: dx_def dz_def dc_def ds_def field_simps)
  then have "\<bar>(X * c - Z * s) * 65536 - real_of_int vx\<bar> \<le> real_of_int ax + real_of_int er"
  proof (rule rot_error)
    show "\<bar>c * dx\<bar> \<le> 236 / 256 * ex" by (rule p1)
    show "\<bar>x * dc\<bar> \<le> \<bar>x\<bar> / 16777216" by (rule q1)
    show "\<bar>- (s * dz)\<bar> \<le> 100 / 256 * ez" using p2 by simp
    show "\<bar>- (z * ds)\<bar> \<le> \<bar>z\<bar> / 16777216" using q2 by simp
    show "real_of_int vx \<le> (x * 15452839 - z * 6533356) / 16777216" by (rule vx(1))
    show "(x * 15452839 - z * 6533356) / 16777216 < real_of_int vx + 1" by (rule vx(2))
    show "236 / 256 * ex + 100 / 256 * ez < real_of_int ax + 1" using ax by (simp add: field_simps)
    show "\<bar>x\<bar> / 16777216 + \<bar>z\<bar> / 16777216 + 2 < real_of_int er"
      using er by (simp add: add_divide_distrib)
  qed
  then have "\<bar>(X * c - Z * s) * 65536 - real_of_int vx\<bar> \<le> real_of_int (ax + er)"
    by simp
  moreover have "fst (fx_rot p q) = (vx, ax + er)"
    by (simp add: fx_rot_def Let_def vx_def ax_def er_def)
  ultimately show "approx (fst (fx_rot p q)) (X * cos (4 / 10) - Z * sin (4 / 10))"
    by (simp add: approx_def c_def s_def)
  define vz where "vz = drop_bit 24 (fst p * 6533356 + fst q * 15452839)"
  define az where "az = drop_bit 8 (snd p * 100 + snd q * 236)"
  have vz: "real_of_int vz \<le> (x * 6533356 + z * 15452839) / 16777216"
    "(x * 6533356 + z * 15452839) / 16777216 < real_of_int vz + 1"
    using drop_bit_real [where n = 24 and x = "fst p * 6533356 + fst q * 15452839"]
    by (simp_all add: vz_def x_def z_def)
  have az: "(ex * 100 + ez * 236) / 256 < real_of_int az + 1"
    using drop_bit_real(2) [where n = 8 and x = "snd p * 100 + snd q * 236"]
    by (simp add: az_def ex_def ez_def)
  have "(X * s + Z * c) * 65536 - (x * 6533356 + z * 15452839) / 16777216
      = s * dx + x * ds + c * dz + z * dc"
    by (simp add: dx_def dz_def dc_def ds_def field_simps)
  then have "\<bar>(X * s + Z * c) * 65536 - real_of_int vz\<bar> \<le> real_of_int az + real_of_int er"
  proof (rule rot_error)
    show "\<bar>s * dx\<bar> \<le> 100 / 256 * ex" by (rule p3)
    show "\<bar>x * ds\<bar> \<le> \<bar>x\<bar> / 16777216" by (rule q3)
    show "\<bar>c * dz\<bar> \<le> 236 / 256 * ez" by (rule p4)
    show "\<bar>z * dc\<bar> \<le> \<bar>z\<bar> / 16777216" by (rule q4)
    show "real_of_int vz \<le> (x * 6533356 + z * 15452839) / 16777216" by (rule vz(1))
    show "(x * 6533356 + z * 15452839) / 16777216 < real_of_int vz + 1" by (rule vz(2))
    show "100 / 256 * ex + 236 / 256 * ez < real_of_int az + 1" using az by (simp add: field_simps)
    show "\<bar>x\<bar> / 16777216 + \<bar>z\<bar> / 16777216 + 2 < real_of_int er"
      using er by (simp add: add_divide_distrib)
  qed
  then have "\<bar>(X * s + Z * c) * 65536 - real_of_int vz\<bar> \<le> real_of_int (az + er)"
    by simp
  moreover have "snd (fx_rot p q) = (vz, az + er)"
    by (simp add: fx_rot_def Let_def vz_def az_def er_def)
  ultimately show "approx (snd (fx_rot p q)) (X * sin (4 / 10) + Z * cos (4 / 10))"
    by (simp add: approx_def c_def s_def)
qed

lemma stage_sound:
  assumes "approx px X" "approx py Y" "approx pz Z"
  shows "\<exists>X' Y' Z'.
      waveStep 0 i ((X, Y, Z), 2 ^ i, (1 / 2) ^ i) = ((X', Y', Z'), 2 ^ Suc i, (1 / 2) ^ Suc i)
      \<and> approx (fst (fx_stage i (px, py, pz))) X'
      \<and> approx (fst (snd (fx_stage i (px, py, pz)))) Y'
      \<and> approx (snd (snd (fx_stage i (px, py, pz)))) Z'
      \<and> approx (fst (fx_last i (px, py, pz))) X'
      \<and> approx (snd (fx_last i (px, py, pz))) Z'"
proof -
  define X1 where "X1 = X * cos (4 / 10) - Z * sin (4 / 10)"
  define Z1 where "Z1 = X * sin (4 / 10) + Z * cos (4 / 10)"
  define r where "r = fx_rot px pz"
  have r1: "approx (fst r) X1" and r2: "approx (snd r) Z1"
    unfolding r_def X1_def Z1_def by (rule approx_rot [OF assms(1,3)])+
  have ox: "approx (fx_osc i (snd r)) (cos (Z1 * 2 ^ i) * (1 / 2) ^ i)" by (rule approx_osc [OF r2])
  have oy: "approx (fx_osc i (fst r)) (cos (X1 * 2 ^ i) * (1 / 2) ^ i)" by (rule approx_osc [OF r1])
  have oz: "approx (fx_osc i py) (cos (Y * 2 ^ i) * (1 / 2) ^ i)" by (rule approx_osc [OF assms(2)])
  have step: "waveStep 0 i ((X, Y, Z), 2 ^ i, (1 / 2) ^ i)
      = ((X1 + cos (Z1 * 2 ^ i) * (1 / 2) ^ i, Y + cos (X1 * 2 ^ i) * (1 / 2) ^ i,
          Z1 + cos (Y * 2 ^ i) * (1 / 2) ^ i), 2 ^ Suc i, (1 / 2) ^ Suc i)"
    by (simp add: rot_def Let_def HALF_def X1_def Z1_def)
  have st: "fx_stage i (px, py, pz)
      = (fx_add (fst r) (fx_osc i (snd r)), fx_add py (fx_osc i (fst r)),
         fx_add (snd r) (fx_osc i py))"
    by (simp add: fx_stage_def Let_def r_def)
  have la: "fx_last i (px, py, pz)
      = (fx_add (fst r) (fx_osc i (snd r)), fx_add (snd r) (fx_osc i py))"
    by (simp add: fx_last_def Let_def r_def)
  show ?thesis
    unfolding step st la
    using approx_add [OF r1 ox] approx_add [OF assms(2) oy] approx_add [OF r2 oz]
    by simp
qed

lemma approx_zero: "approx (0, 0) 0"
  by (simp add: approx_def)

lemma wave_sound:
  assumes "approx (zc, zr) Z"
  shows "\<exists>wx wy wz. applyWaveDeformation (0, 0, Z) 0 = (wx, wy, wz)
      \<and> approx (fst (fx_wave zc zr)) wx \<and> approx (snd (fx_wave zc zr)) wz"
proof -
  define s0 :: fx3 where "s0 = ((0, 0), (0, 0), (zc, zr))"
  obtain X1 Y1 Z1 where 1:
    "waveStep 0 0 ((0, 0, Z), 2 ^ 0, (1 / 2) ^ 0) = ((X1, Y1, Z1), 2 ^ Suc 0, (1 / 2) ^ Suc 0)"
    "approx (fst (fx_stage 0 s0)) X1" "approx (fst (snd (fx_stage 0 s0))) Y1"
    "approx (snd (snd (fx_stage 0 s0))) Z1"
    using stage_sound [OF approx_zero approx_zero assms, of 0] unfolding s0_def by blast
  define s1 where "s1 = fx_stage 0 s0"
  have s1: "s1 = (fst s1, fst (snd s1), snd (snd s1))" by simp
  obtain X2 Y2 Z2 where 2:
    "waveStep 0 1 ((X1, Y1, Z1), 2 ^ 1, (1 / 2) ^ 1) = ((X2, Y2, Z2), 2 ^ Suc 1, (1 / 2) ^ Suc 1)"
    "approx (fst (fx_stage 1 s1)) X2" "approx (fst (snd (fx_stage 1 s1))) Y2"
    "approx (snd (snd (fx_stage 1 s1))) Z2"
    using stage_sound [OF 1(2,3,4) [folded s1_def], of 1] s1 by metis
  define s2 where "s2 = fx_stage 1 s1"
  have s2: "s2 = (fst s2, fst (snd s2), snd (snd s2))" by simp
  obtain X3 Y3 Z3 where 3:
    "waveStep 0 2 ((X2, Y2, Z2), 2 ^ 2, (1 / 2) ^ 2) = ((X3, Y3, Z3), 2 ^ Suc 2, (1 / 2) ^ Suc 2)"
    "approx (fst (fx_stage 2 s2)) X3" "approx (fst (snd (fx_stage 2 s2))) Y3"
    "approx (snd (snd (fx_stage 2 s2))) Z3"
    using stage_sound [OF 2(2,3,4) [folded s2_def], of 2] s2 by metis
  define s3 where "s3 = fx_stage 2 s2"
  have s3: "s3 = (fst s3, fst (snd s3), snd (snd s3))" by simp
  obtain X4 Y4 Z4 where 4:
    "waveStep 0 3 ((X3, Y3, Z3), 2 ^ 3, (1 / 2) ^ 3) = ((X4, Y4, Z4), 2 ^ Suc 3, (1 / 2) ^ Suc 3)"
    "approx (fst (fx_last 3 s3)) X4" "approx (snd (fx_last 3 s3)) Z4"
    using stage_sound [OF 3(2,3,4) [folded s3_def], of 3] s3 by metis
  have w: "fx_wave zc zr = fx_last 3 s3"
    by (simp add: fx_wave_def s3_def s2_def s1_def s0_def)
  have "applyWaveDeformation (0, 0, Z) 0
      = fst (waveStep 0 3 (waveStep 0 2 (waveStep 0 1 (waveStep 0 0 ((0, 0, Z), 1, 1)))))"
    unfolding applyWaveDeformation_def
    by (simp add: waveLoop.simps [of _ 0] waveLoop.simps [of _ "Suc 0"]
        waveLoop.simps [of _ "Suc (Suc 0)"] waveLoop.simps [of _ "Suc (Suc (Suc 0))"]
        waveLoop.simps [of _ "Suc (Suc (Suc (Suc 0)))"] numeral_eq_Suc)
  also have "\<dots> = (X4, Y4, Z4)"
    using 1(1) 2(1) 3(1) 4(1) by (simp add: numeral_eq_Suc)
  finally show ?thesis using 4(2,3) w by auto
qed

lemma blendMax_eq: "blendMax a b 1 = max a b + (max (4 - \<bar>a - b\<bar>) 0)\<^sup>2 / 16"
proof -
  have "\<bar>b - a\<bar> = \<bar>a - b\<bar>" by simp
  moreover have "- min (- a) (- b) = max a b" by (simp add: min_def max_def)
  ultimately show ?thesis
    by (simp add: blendMax_def blendMin_def Let_def power2_eq_square)
qed

lemma blendMax_ge_lin:
  assumes "0 \<le> l" "l \<le> 1"
  shows "l * a + (1 - l) * b + 4 * l * (1 - l) \<le> blendMax a b 1"
proof -
  define t where "t = a - b"
  consider (mid) "\<bar>t\<bar> \<le> 4" | (hi) "4 < t" | (lo) "t < - 4" by linarith
  then show ?thesis
  proof cases
    case mid
    have e1: "max a b = (a + b) / 2 + \<bar>t\<bar> / 2" by (simp add: t_def max_def abs_if field_simps)
    have e2: "max (4 - \<bar>a - b\<bar>) 0 = 4 - \<bar>t\<bar>" using mid by (simp add: t_def)
    have "(4 - \<bar>t\<bar>)\<^sup>2 = 16 - 8 * \<bar>t\<bar> + \<bar>t\<bar> * \<bar>t\<bar>"
      by (simp add: power2_eq_square algebra_simps)
    then have e3: "(4 - \<bar>t\<bar>)\<^sup>2 = 16 - 8 * \<bar>t\<bar> + t\<^sup>2"
      by (simp add: power2_eq_square)
    have "blendMax a b 1 = (a + b) / 2 + 1 + t\<^sup>2 / 16"
      unfolding blendMax_eq e1 e2 e3 by (simp add: field_simps)
    moreover have "(a + b) / 2 + 1 + t\<^sup>2 / 16 - (l * a + (1 - l) * b + 4 * l * (1 - l))
        = (t / 4 + 1 - 2 * l)\<^sup>2"
      by (simp add: t_def power2_eq_square field_simps)
    moreover have "0 \<le> (t / 4 + 1 - 2 * l)\<^sup>2" by simp
    ultimately show ?thesis by linarith
  next
    case hi
    then have "blendMax a b 1 = a" unfolding blendMax_eq by (simp add: t_def max_def)
    moreover have "a - (l * a + (1 - l) * b + 4 * l * (1 - l)) = (1 - l) * (t - 4 * l)"
      by (simp add: t_def field_simps)
    moreover have "0 \<le> (1 - l) * (t - 4 * l)" using assms hi by (intro mult_nonneg_nonneg) simp_all
    ultimately show ?thesis by linarith
  next
    case lo
    then have "blendMax a b 1 = b" unfolding blendMax_eq by (simp add: t_def max_def)
    moreover have "b - (l * a + (1 - l) * b + 4 * l * (1 - l)) = l * (- t - 4 * (1 - l))"
      by (simp add: t_def field_simps)
    moreover have "0 \<le> l * (- t - 4 * (1 - l))" using assms lo by (intro mult_nonneg_nonneg) simp_all
    ultimately show ?thesis by linarith
  qed
qed

lemma blendMax_attained:
  "\<exists>l. 0 \<le> l \<and> l \<le> 1 \<and> blendMax a b 1 = l * a + (1 - l) * b + 4 * l * (1 - l)"
proof -
  define t where "t = a - b"
  consider (mid) "\<bar>t\<bar> \<le> 4" | (hi) "4 < t" | (lo) "t < - 4" by linarith
  then show ?thesis
  proof cases
    case mid
    define l where "l = 1 / 2 + t / 8"
    have l: "0 \<le> l" "l \<le> 1" using mid by (simp_all add: l_def abs_le_iff)
    have e1: "max a b = (a + b) / 2 + \<bar>t\<bar> / 2" by (simp add: t_def max_def abs_if field_simps)
    have e2: "max (4 - \<bar>a - b\<bar>) 0 = 4 - \<bar>t\<bar>" using mid by (simp add: t_def)
    have "(4 - \<bar>t\<bar>)\<^sup>2 = 16 - 8 * \<bar>t\<bar> + \<bar>t\<bar> * \<bar>t\<bar>"
      by (simp add: power2_eq_square algebra_simps)
    then have e3: "(4 - \<bar>t\<bar>)\<^sup>2 = 16 - 8 * \<bar>t\<bar> + t\<^sup>2"
      by (simp add: power2_eq_square)
    have "blendMax a b 1 = (a + b) / 2 + 1 + t\<^sup>2 / 16"
      unfolding blendMax_eq e1 e2 e3 by (simp add: field_simps)
    moreover have "(a + b) / 2 + 1 + t\<^sup>2 / 16 = l * a + (1 - l) * b + 4 * l * (1 - l)"
      by (simp add: t_def l_def power2_eq_square field_simps)
    ultimately show ?thesis using l by auto
  next
    case hi
    then have "blendMax a b 1 = 1 * a + (1 - 1) * b + 4 * 1 * (1 - 1)"
      unfolding blendMax_eq by (simp add: t_def max_def)
    then show ?thesis by (intro exI [of _ 1]) simp
  next
    case lo
    then have "blendMax a b 1 = 0 * a + (1 - 0) * b + 4 * 0 * (1 - 0)"
      unfolding blendMax_eq by (simp add: t_def max_def)
    then show ?thesis by (intro exI [of _ 0]) simp
  qed
qed

lemma blendMax_mono:
  assumes "a0 \<le> a" "b0 \<le> b"
  shows "blendMax a0 b0 1 \<le> blendMax a b 1"
proof -
  obtain l where l: "0 \<le> l" "l \<le> 1"
    and eq: "blendMax a0 b0 1 = l * a0 + (1 - l) * b0 + 4 * l * (1 - l)"
    using blendMax_attained [of a0 b0] by blast
  have "l * a0 \<le> l * a" using assms(1) l(1) by (rule mult_left_mono)
  moreover have "(1 - l) * b0 \<le> (1 - l) * b" using assms(2) l(2) by (intro mult_left_mono) simp_all
  ultimately have "blendMax a0 b0 1 \<le> l * a + (1 - l) * b + 4 * l * (1 - l)" using eq by linarith
  also have "\<dots> \<le> blendMax a b 1" by (rule blendMax_ge_lin [OF l])
  finally show ?thesis .
qed

lemma fieldDistance_axis:
  assumes "uTime u = 0" "uPillarWidth u = 3"
    and "applyWaveDeformation (0, 0, z) 0 = (wx, wy, wz)"
  shows "fieldDistance u (0, 0, z)
      = \<bar>blendMax (\<bar>z\<bar> - 3) (sqrt (cos wx * cos wx + cos wz * cos wz) - 2 / 10) 1\<bar> * (15 / 100)
        + 1 / 100"
  using assms by (simp add: Let_def)

lemma fieldDistance_lower:
  assumes u: "uTime u = 0" "uPillarWidth u = 3"
    and w: "applyWaveDeformation (0, 0, z) 0 = (wx, wy, wz)"
    and rb: "rb \<le> \<bar>z\<bar> - 3"
    and g: "g \<le> sqrt (cos wx * cos wx + cos wz * cos wz) - 2 / 10"
  shows "blendMax rb g 1 * (15 / 100) + 1 / 100 \<le> fieldDistance u (0, 0, z)"
proof -
  have "blendMax rb g 1
      \<le> blendMax (\<bar>z\<bar> - 3) (sqrt (cos wx * cos wx + cos wz * cos wz) - 2 / 10) 1"
    by (rule blendMax_mono [OF rb g])
  then show ?thesis unfolding fieldDistance_axis [OF u w] by linarith
qed

lemma abs_lower_sq:
  fixes C :: real and v e :: int
  assumes "\<bar>C * 65536 - real_of_int v\<bar> \<le> real_of_int e"
  shows "(real_of_int (max (\<bar>v\<bar> - e) 0))\<^sup>2 \<le> (C * 65536)\<^sup>2"
proof -
  have "real_of_int (max (\<bar>v\<bar> - e) 0) \<le> \<bar>C * 65536\<bar>"
    using assms by (simp add: max_def; linarith)
  moreover have "0 \<le> real_of_int (max (\<bar>v\<bar> - e) 0)" by simp
  ultimately have "(real_of_int (max (\<bar>v\<bar> - e) 0))\<^sup>2 \<le> \<bar>C * 65536\<bar>\<^sup>2"
    by (intro power_mono) simp_all
  then show ?thesis by simp
qed

lemma cell_sound:
  assumes ok: "cell_ok blo bhi gam tgt uc"
    and d: "real_of_int blo / 1024 \<le> d" "d \<le> real_of_int bhi / 1024"
    and u: "uTime u = 0" "uPillarWidth u = 3"
  shows "real_of_int tgt / 1024 \<le> fieldDistance u (0, 0, d - 10)"
proof -
  define zlo where "zlo = blo - 10240"
  define zhi where "zhi = bhi - 10240"
  define rb where "rb = (if zlo \<le> 0 \<and> 0 \<le> zhi then - 3072 else min \<bar>zlo\<bar> \<bar>zhi\<bar> - 3072)"
  define h where "h = max (4096 - \<bar>rb - gam\<bar>) 0"
  define w where "w = fx_wave ((zlo + zhi) * 32) ((zhi - zlo) * 32)"
  define c1 where "c1 = fx_cosE (fst w)"
  define c2 where "c2 = fx_cosE (snd w)"
  define l1 where "l1 = max (\<bar>fst c1\<bar> - snd c1) 0"
  define l2 where "l2 = max (\<bar>fst c2\<bar> - snd c2) 0"
  define G where "G = gam * 64 + 13108"
  have unfold: "cell_ok blo bhi gam tgt uc =
      ((if uc then 0 \<le> G \<and> G * G \<le> l1 * l1 + l2 * l2 else gam \<le> - 205)
       \<and> 20 * 16384 * (25 * tgt - 256) \<le> 75 * (max rb gam * 16384 + h * h))"
    by (simp only: cell_ok_def Let_def zlo_def zhi_def rb_def h_def w_def c1_def c2_def l1_def
        l2_def G_def)
  define z where "z = d - 10"
  have z: "real_of_int zlo / 1024 \<le> z" "z \<le> real_of_int zhi / 1024"
    using d by (simp_all add: z_def zlo_def zhi_def field_simps)
  have rbz: "real_of_int rb / 1024 \<le> \<bar>z\<bar> - 3"
  proof (cases "zlo \<le> 0 \<and> 0 \<le> zhi")
    case True
    then show ?thesis by (simp add: rb_def)
  next
    case False
    then consider "0 < zlo" | "zhi < 0" by linarith
    then show ?thesis
    proof cases
      case 1
      then have "real_of_int (min \<bar>zlo\<bar> \<bar>zhi\<bar>) \<le> real_of_int zlo" by simp
      moreover have "real_of_int zlo / 1024 \<le> \<bar>z\<bar>" using z(1) by linarith
      ultimately show ?thesis using False by (simp add: rb_def field_simps; linarith)
    next
      case 2
      then have "real_of_int (min \<bar>zlo\<bar> \<bar>zhi\<bar>) \<le> - real_of_int zhi" by simp
      moreover have "- real_of_int zhi / 1024 \<le> \<bar>z\<bar>" using z(2) by linarith
      ultimately show ?thesis using False by (simp add: rb_def field_simps; linarith)
    qed
  qed
  have "approx ((zlo + zhi) * 32, (zhi - zlo) * 32) z"
    using z by (simp add: approx_def abs_le_iff field_simps)
  then obtain wx wy wz where wv: "applyWaveDeformation (0, 0, z) 0 = (wx, wy, wz)"
    and ax: "approx (fst w) wx" and az: "approx (snd w) wz"
    unfolding w_def using wave_sound by blast
  let ?s = "sqrt (cos wx * cos wx + cos wz * cos wz)"
  have gz: "real_of_int gam / 1024 \<le> ?s - 2 / 10"
  proof (cases uc)
    case False
    then have "gam \<le> - 205" using ok unfold by simp
    then have "real_of_int gam \<le> - 205" by linarith
    moreover have "0 \<le> ?s" by simp
    ultimately show ?thesis by linarith
  next
    case True
    then have G: "0 \<le> G" "G * G \<le> l1 * l1 + l2 * l2" using ok unfold by simp_all
    have a1: "\<bar>cos wx * 65536 - real_of_int (fst c1)\<bar> \<le> real_of_int (snd c1)"
      using approx_cosE [OF ax] by (simp add: approx_def c1_def)
    have a2: "\<bar>cos wz * 65536 - real_of_int (fst c2)\<bar> \<le> real_of_int (snd c2)"
      using approx_cosE [OF az] by (simp add: approx_def c2_def)
    have "real_of_int (G * G) \<le> real_of_int (l1 * l1 + l2 * l2)" using G(2) by linarith
    then have "(real_of_int G)\<^sup>2 \<le> (real_of_int l1)\<^sup>2 + (real_of_int l2)\<^sup>2"
      by (simp add: power2_eq_square)
    also have "\<dots> \<le> (cos wx * 65536)\<^sup>2 + (cos wz * 65536)\<^sup>2"
      using abs_lower_sq [OF a1] abs_lower_sq [OF a2] unfolding l1_def l2_def by linarith
    also have "\<dots> = (65536 * ?s)\<^sup>2"
    proof -
      have "0 \<le> cos wx * cos wx + cos wz * cos wz" by simp
      then have sq: "?s\<^sup>2 = cos wx * cos wx + cos wz * cos wz" by (rule real_sqrt_pow2)
      have "(65536 * ?s)\<^sup>2 = 65536\<^sup>2 * ?s\<^sup>2" by (rule power_mult_distrib)
      also have "\<dots> = 65536\<^sup>2 * (cos wx * cos wx + cos wz * cos wz)" by (simp only: sq)
      also have "\<dots> = (cos wx * 65536)\<^sup>2 + (cos wz * 65536)\<^sup>2"
        by (simp add: power2_eq_square algebra_simps)
      finally show ?thesis by simp
    qed
    finally have "(real_of_int G)\<^sup>2 \<le> (65536 * ?s)\<^sup>2" .
    then have "real_of_int G \<le> 65536 * ?s"
      by (rule power2_le_imp_le) simp
    then show ?thesis by (simp add: G_def; linarith)
  qed
  have fin: "20 * 16384 * (25 * tgt - 256) \<le> 75 * (max rb gam * 16384 + h * h)"
    using ok unfold by simp
  define A where "A = real_of_int rb / 1024"
  define B where "B = real_of_int gam / 1024"
  have m1: "max (4 - \<bar>A - B\<bar>) 0 = real_of_int h / 1024"
    by (simp add: A_def B_def h_def max_def field_simps; linarith)
  have m2: "max A B = real_of_int (max rb gam) / 1024"
    by (simp add: A_def B_def max_def field_simps)
  have bm: "blendMax A B 1
      = real_of_int (max rb gam) / 1024 + (real_of_int h / 1024)\<^sup>2 / 16"
    unfolding blendMax_eq m1 m2 by (rule refl)
  have "real_of_int (20 * 16384 * (25 * tgt - 256))
      \<le> real_of_int (75 * (max rb gam * 16384 + h * h))" using fin by linarith
  then have "20 * 16384 * (25 * real_of_int tgt - 256)
      \<le> 75 * (real_of_int (max rb gam) * 16384 + real_of_int h * real_of_int h)" by simp
  then have "real_of_int tgt / 1024 \<le> blendMax A B 1 * (15 / 100) + 1 / 100"
    unfolding bm by (simp add: power2_eq_square field_simps)
  also have "\<dots> \<le> fieldDistance u (0, 0, z)"
    using fieldDistance_lower [OF u wv] rbz gz unfolding A_def B_def by blast
  finally show ?thesis by (simp add: z_def)
qed

lemma interval_end_ge: "cells_ok tgt lo cs \<Longrightarrow> lo \<le> interval_end lo cs"
proof (induction cs arbitrary: lo)
  case Nil
  then show ?case by simp
next
  case (Cons c cs)
  obtain hi gam uc where c: "c = (hi, gam, uc)" by (cases c)
  with Cons.prems have "lo < hi" "cells_ok tgt hi cs" by simp_all
  with Cons.IH [of hi] c show ?case by simp
qed

lemma cells_sound:
  assumes u: "uTime u = 0" "uPillarWidth u = 3"
  shows "cells_ok tgt lo cs \<Longrightarrow> real_of_int lo / 1024 \<le> d \<Longrightarrow>
    d \<le> real_of_int (interval_end lo cs) / 1024 \<Longrightarrow> cs \<noteq> [] \<Longrightarrow>
    real_of_int tgt / 1024 \<le> fieldDistance u (0, 0, d - 10)"
proof (induction cs arbitrary: lo)
  case Nil
  then show ?case by simp
next
  case (Cons c cs)
  obtain hi gam uc where c: "c = (hi, gam, uc)" by (cases c)
  with Cons.prems have ok: "cell_ok lo hi gam tgt uc" and rest: "cells_ok tgt hi cs"
    and e: "d \<le> real_of_int (interval_end hi cs) / 1024" by simp_all
  show ?case
  proof (cases "d \<le> real_of_int hi / 1024")
    case True
    show ?thesis by (rule cell_sound [OF ok Cons.prems(2) True u])
  next
    case False
    then have hd: "real_of_int hi / 1024 \<le> d" by simp
    have "cs \<noteq> []" using False e by auto
    then show ?thesis by (rule Cons.IH [OF rest hd e])
  qed
qed

lemma samplePos_axis: "samplePos (0, 0, - 10) (0, 0, 1) (Mat2 1 0 0 1) depth = (0, 0, depth - 10)"
  by simp

lemma march_cover:
  assumes u: "uTime u = 0" "uPillarWidth u = 3"
  shows "cover_ok a cert' \<Longrightarrow> real_of_int a / 1024 \<le> depth \<Longrightarrow> i + length cert' < 100 \<Longrightarrow>
    m_broke (march u (0, 0, - 10) (0, 0, 1) (Mat2 1 0 0 1) i depth color) \<and>
    m_iterations (march u (0, 0, - 10) (0, 0, 1) (Mat2 1 0 0 1) i depth color)
      \<le> i + length cert' + 1"
proof (induction cert' arbitrary: a i depth color)
  case Nil
  then have "maxDepth < depth" by (simp add: maxDepth_def)
  moreover have "i < 100" using Nil.prems by simp
  ultimately show ?case by (subst march.simps, subst (2) march.simps) simp
next
  case (Cons cs rest)
  let ?F = "fieldDistance u (samplePos (0, 0, - 10) (0, 0, 1) (Mat2 1 0 0 1) depth)"
  have i: "i < 100" using Cons.prems by simp
  show ?case
  proof (cases "maxDepth < depth")
    case True
    with i show ?thesis by (subst march.simps, subst (2) march.simps) simp
  next
    case False
    have nohit: "\<not> ?F < EPSILON"
      using fieldDistance_not_hit [of u "samplePos (0, 0, - 10) (0, 0, 1) (Mat2 1 0 0 1) depth"]
      by simp
    have eq: "march u (0, 0, - 10) (0, 0, 1) (Mat2 1 0 0 1) i depth color
        = march u (0, 0, - 10) (0, 0, 1) (Mat2 1 0 0 1) (Suc i) (depth + ?F)
            (accumulate u (samplePos (0, 0, - 10) (0, 0, 1) (Mat2 1 0 0 1) depth) color)"
      using i False nohit by (subst march.simps) simp
    define b where "b = interval_end a cs"
    have cok: "cells_ok (b - a) a cs" and rok: "cover_ok b rest"
      using Cons.prems(1) by (simp_all add: b_def)
    have F0: "0 \<le> ?F"
      using fieldDistance_floor [of u "samplePos (0, 0, - 10) (0, 0, 1) (Mat2 1 0 0 1) depth"]
      by simp
    have adv: "real_of_int b / 1024 \<le> depth + ?F"
    proof (cases "depth \<le> real_of_int b / 1024 \<and> cs \<noteq> []")
      case True
      have "real_of_int (b - a) / 1024 \<le> fieldDistance u (0, 0, depth - 10)"
        using cells_sound [OF u cok Cons.prems(2)] True unfolding b_def by blast
      then show ?thesis using Cons.prems(2) by (simp add: samplePos_axis field_simps)
    next
      case False
      then consider "real_of_int b / 1024 < depth" | "cs = []" by linarith
      then show ?thesis
      proof cases
        case 1
        then show ?thesis using F0 by linarith
      next
        case 2
        then have "b = a" by (simp add: b_def)
        then show ?thesis using Cons.prems(2) F0 by linarith
      qed
    qed
    have "Suc i + length rest < 100" using Cons.prems(3) by simp
    from Cons.IH [OF rok adv this] show ?thesis unfolding eq by simp
  qed
qed

lemma rayDirection_center: "rayDirection u (1 / 2, 1 / 2) = (0, 0, 1)"
  by (simp add: rayDirection_def Let_def rot_def)

lemma rotX_still: "uTime u = 0 \<Longrightarrow> \<not> uInteractive u \<Longrightarrow> rotX u = Mat2 1 0 0 1"
  by (simp add: rotX_def rot_def Let_def)

lemma cert_ok: "cover_ok 102 cert"
  by code_simp

lemma cert_length: "length cert = 98"
  by (simp add: cert_def)

text \<open>
  Claim C5: with \<open>pillarWidth = 3.0\<close>, at time 0 and without pointer interaction, the
  march of the pixel in the centre of the screen (\<open>vUv = (1/2, 1/2)\<close>, that is
  \<open>uv = (0, 0)\<close>) is left by \<open>break\<close> after fewer than 100 iterations.  Along this
  ray the sample's second coordinate is 0, so the result holds for every \<open>pillarHeight\<close>,
  in particular for 0.4.  The canvas has a positive height, so that \<open>uv\<close> is defined;
  shader arithmetic is real arithmetic.
\<close>

theorem center_pixel_march_breaks:
  assumes "uTime u = 0" "uPillarWidth u = 3" "\<not> uInteractive u"
    and "0 < snd (uResolution u)"
  shows "m_broke (march u (0, 0, - 10) (rayDirection u (1 / 2, 1 / 2)) (rotX u) 0 0.1 (0, 0, 0)) \<and>
    m_iterations (march u (0, 0, - 10) (rayDirection u (1 / 2, 1 / 2)) (rotX u) 0 0.1 (0, 0, 0))
      < 100"
proof -
  have "real_of_int 102 / 1024 \<le> (0.1 :: real)" by simp
  moreover have "0 + length cert < 100" by (simp add: cert_length)
  ultimately have "m_broke (march u (0, 0, - 10) (0, 0, 1) (Mat2 1 0 0 1) 0 0.1 (0, 0, 0)) \<and>
    m_iterations (march u (0, 0, - 10) (0, 0, 1) (Mat2 1 0 0 1) 0 0.1 (0, 0, 0))
      \<le> 0 + length cert + 1"
    by (rule march_cover [OF assms(1,2) cert_ok])
  then show ?thesis
    by (simp add: rayDirection_center rotX_still [OF assms(1,3)] cert_length)
qed

theorem center_pixel_march_breaks_witness:
  "uTime pageUniforms = 0 \<and> uPillarWidth pageUniforms = 3 \<and>
   uPillarHeight pageUniforms = 4 / 10 \<and> \<not> uInteractive pageUniforms \<and>
   0 < snd (uResolution pageUniforms) \<and>
   m_broke (march pageUniforms (0, 0, - 10) (rayDirection pageUniforms (1 / 2, 1 / 2))
              (rotX pageUniforms) 0 0.1 (0, 0, 0)) \<and>
   m_iterations (march pageUniforms (0, 0, - 10) (rayDirection pageUniforms (1 / 2, 1 / 2))
                   (rotX pageUniforms) 0 0.1 (0, 0, 0)) < 100"
proof -
  have pre: "uTime pageUniforms = 0" "uPillarWidth pageUniforms = 3"
    "\<not> uInteractive pageUniforms" "0 < snd (uResolution pageUniforms)"
    by (simp_all add: pageUniforms_def)
  have "uPillarHeight pageUniforms = 4 / 10" by (simp add: pageUniforms_def)
  then show ?thesis using center_pixel_march_breaks [OF pre] pre by simp
qed

end
